theory Spec2Isabelle
  imports Main "HOL-Library.Word"
begin

unbundle bit_operations_syntax

section \<open>Data model (tcp.c, net.c, platform/linux/sched.c)\<close>

type_synonym uint8_t = "8 word"
type_synonym uint16_t = "16 word"
type_synonym uint32_t = "32 word"
type_synonym ip_addr_t = "32 word"

text \<open>\<^verbatim>\<open>struct ip_endpoint\<close>: address and port, both kept in network byte order.\<close>

record ip_endpoint =
  addr :: ip_addr_t
  port :: uint16_t

definition IP_ADDR_ANY :: ip_addr_t where
  "IP_ADDR_ANY = 0x00000000"

definition IP_ADDR_BROADCAST :: ip_addr_t where
  "IP_ADDR_BROADCAST = 0xffffffff"

text \<open>\<^verbatim>\<open>struct timeval\<close>: seconds and microseconds, both signed.\<close>

record timeval =
  tv_sec :: int
  tv_usec :: int

text \<open>\<^verbatim>\<open>struct sched_ctx\<close> without the condition variable itself: the latch and the
  count of tasks inside \<^verbatim>\<open>sched_sleep\<close>.\<close>

record sched_ctx =
  interrupted :: int
  wc :: int

datatype tcp_state =
    TCP_PCB_STATE_FREE
  | TCP_PCB_STATE_CLOSED
  | TCP_PCB_STATE_LISTEN
  | TCP_PCB_STATE_SYN_SENT
  | TCP_PCB_STATE_SYN_RECEIVED
  | TCP_PCB_STATE_ESTABLISHED
  | TCP_PCB_STATE_FIN_WAIT1
  | TCP_PCB_STATE_FIN_WAIT2
  | TCP_PCB_STATE_CLOSING
  | TCP_PCB_STATE_TIME_WAIT
  | TCP_PCB_STATE_CLOSE_WAIT
  | TCP_PCB_STATE_LAST_ACK

text \<open>\<^verbatim>\<open>struct tcp_queue_entry\<close>; \<^verbatim>\<open>len\<close> is the length of \<open>e_data\<close>.\<close>

record tcp_queue_entry =
  e_first :: timeval
  e_last :: timeval
  e_rto :: uint32_t
  e_seq :: uint32_t
  e_flg :: uint8_t
  e_data :: "uint8_t list"

text \<open>\<^verbatim>\<open>struct tcp_pcb\<close>. The nested \<^verbatim>\<open>snd\<close> and \<^verbatim>\<open>rcv\<close> structs are flattened into
  \<open>snd_*\<close> and \<open>rcv_*\<close>; \<open>buf\<close> always holds 16 bytes; \<open>queue\<close> is the retransmit queue,
  head first.\<close>

record tcp_pcb =
  active :: int
  state :: tcp_state
  local :: ip_endpoint
  foreign :: ip_endpoint
  snd_nxt :: uint32_t
  snd_una :: uint32_t
  snd_wnd :: uint16_t
  snd_up :: uint16_t
  snd_wl1 :: uint32_t
  snd_wl2 :: uint32_t
  iss :: uint32_t
  rcv_nxt :: uint32_t
  rcv_wnd :: uint16_t
  rcv_up :: uint16_t
  irs :: uint32_t
  mtu :: uint16_t
  mss :: uint16_t
  start_time :: timeval
  time_wait :: timeval
  buf :: "uint8_t list"
  ctx :: sched_ctx
  queue :: "tcp_queue_entry list"

section \<open>PCB selection\<close>

text \<open>The loop of \<^verbatim>\<open>tcp_pcb_select\<close> from slot \<open>i\<close> on; \<open>listen_pcb\<close> is the local
  variable of the same name, \<open>None\<close> for \<^verbatim>\<open>NULL\<close>. A \<^verbatim>\<open>NULL\<close> \<^verbatim>\<open>foreign\<close> argument is
  \<open>None\<close>.\<close>

fun tcp_pcb_select_from ::
  "nat \<Rightarrow> tcp_pcb list \<Rightarrow> ip_endpoint \<Rightarrow> ip_endpoint option \<Rightarrow> nat option \<Rightarrow> nat option" where
  "tcp_pcb_select_from i [] l f listen_pcb = listen_pcb"
| "tcp_pcb_select_from i (pcb # rest) l f listen_pcb =
     (if (addr (local pcb) = IP_ADDR_ANY \<or> addr (local pcb) = addr l)
         \<and> port (local pcb) = port l
      then (case f of
              None \<Rightarrow> Some i
            | Some fe \<Rightarrow>
                if addr (foreign pcb) = addr fe \<and> port (foreign pcb) = port fe
                then Some i
                else tcp_pcb_select_from (Suc i) rest l f
                       (if state pcb = TCP_PCB_STATE_LISTEN
                           \<and> addr (foreign pcb) = IP_ADDR_ANY \<and> port (foreign pcb) = 0
                        then Some i else listen_pcb))
      else tcp_pcb_select_from (Suc i) rest l f listen_pcb)"

definition tcp_pcb_select :: "tcp_pcb list \<Rightarrow> ip_endpoint \<Rightarrow> ip_endpoint option \<Rightarrow> nat option" where
  "tcp_pcb_select pcbs l f = tcp_pcb_select_from 0 pcbs l f None"

text \<open>The two kinds of match the specification names, as predicates on one PCB.\<close>

definition local_match :: "tcp_pcb \<Rightarrow> ip_endpoint \<Rightarrow> bool" where
  "local_match pcb l \<longleftrightarrow>
     (addr (local pcb) = IP_ADDR_ANY \<or> addr (local pcb) = addr l) \<and> port (local pcb) = port l"

definition full_match :: "tcp_pcb \<Rightarrow> ip_endpoint \<Rightarrow> ip_endpoint \<Rightarrow> bool" where
  "full_match pcb l f \<longleftrightarrow>
     local_match pcb l \<and> addr (foreign pcb) = addr f \<and> port (foreign pcb) = port f"

definition listen_match :: "tcp_pcb \<Rightarrow> ip_endpoint \<Rightarrow> bool" where
  "listen_match pcb l \<longleftrightarrow>
     local_match pcb l \<and> state pcb = TCP_PCB_STATE_LISTEN
     \<and> addr (foreign pcb) = IP_ADDR_ANY \<and> port (foreign pcb) = 0"

text \<open>A PCB slot after \<^verbatim>\<open>memset(pcb, 0, sizeof(*pcb))\<close>: every field zero, the state
  \<^verbatim>\<open>TCP_PCB_STATE_FREE\<close>, the queue empty.\<close>

definition timeval_zero :: timeval where
  "timeval_zero = \<lparr>tv_sec = 0, tv_usec = 0\<rparr>"

definition ip_endpoint_zero :: ip_endpoint where
  "ip_endpoint_zero = \<lparr>addr = 0, port = 0\<rparr>"

definition tcp_pcb_zero :: tcp_pcb where
  "tcp_pcb_zero =
     \<lparr>active = 0, state = TCP_PCB_STATE_FREE,
      local = ip_endpoint_zero, foreign = ip_endpoint_zero,
      snd_nxt = 0, snd_una = 0, snd_wnd = 0, snd_up = 0, snd_wl1 = 0, snd_wl2 = 0, iss = 0,
      rcv_nxt = 0, rcv_wnd = 0, rcv_up = 0, irs = 0, mtu = 0, mss = 0,
      start_time = timeval_zero, time_wait = timeval_zero,
      buf = replicate 16 0, ctx = \<lparr>interrupted = 0, wc = 0\<rparr>, queue = []\<rparr>"


subsection \<open>Example tables for PCB selection\<close>

definition ex_local :: ip_endpoint where
  "ex_local = \<lparr>addr = 0x0A000001, port = 80\<rparr>"

definition ex_foreign :: ip_endpoint where
  "ex_foreign = \<lparr>addr = 0x0A000002, port = 5000\<rparr>"

definition ex_listen_a :: tcp_pcb where
  "ex_listen_a = tcp_pcb_zero\<lparr>state := TCP_PCB_STATE_LISTEN, local := \<lparr>addr = 0, port = 80\<rparr>\<rparr>"

definition ex_listen_b :: tcp_pcb where
  "ex_listen_b = tcp_pcb_zero\<lparr>state := TCP_PCB_STATE_LISTEN, local := ex_local\<rparr>"

definition ex_conn :: tcp_pcb where
  "ex_conn = tcp_pcb_zero\<lparr>state := TCP_PCB_STATE_ESTABLISHED, local := ex_local, foreign := ex_foreign\<rparr>"

section \<open>Time values and the timer list (net.c)\<close>

text \<open>The \<^verbatim>\<open>timersub\<close> and \<^verbatim>\<open>timercmp\<close> macros of \<^verbatim>\<open><sys/time.h>\<close>: the difference borrows
  one second when the microseconds go negative; the comparison looks at the seconds and
  only when they are equal at the microseconds.\<close>

definition timersub :: "timeval \<Rightarrow> timeval \<Rightarrow> timeval" where
  "timersub a b =
     (let s = tv_sec a - tv_sec b; u = tv_usec a - tv_usec b
      in if u < 0 then \<lparr>tv_sec = s - 1, tv_usec = u + 1000000\<rparr>
         else \<lparr>tv_sec = s, tv_usec = u\<rparr>)"

definition timercmp_lt :: "timeval \<Rightarrow> timeval \<Rightarrow> bool" where
  "timercmp_lt a b =
     (if tv_sec a = tv_sec b then tv_usec a < tv_usec b else tv_sec a < tv_sec b)"

definition timercmp_gt :: "timeval \<Rightarrow> timeval \<Rightarrow> bool" where
  "timercmp_gt a b =
     (if tv_sec a = tv_sec b then tv_usec a > tv_usec b else tv_sec a > tv_sec b)"

text \<open>Modelled from the spec: \<^verbatim>\<open>timeval_add_usec\<close> lives in util.c, which is not among the
  sources. The specification uses it as \<open>last + rto\<close>: the time value advanced by that many
  microseconds, with the microsecond field carried into the seconds.\<close>

definition timeval_add_usec :: "timeval \<Rightarrow> nat \<Rightarrow> timeval" where
  "timeval_add_usec x usec =
     (let s = tv_sec x + int (usec div 1000000); u = tv_usec x + int (usec mod 1000000)
      in if u \<ge> 1000000 then \<lparr>tv_sec = s + 1, tv_usec = u - 1000000\<rparr>
         else \<lparr>tv_sec = s, tv_usec = u\<rparr>)"

text \<open>A time value as a count of microseconds, and the well-formed ones.\<close>

definition usecs :: "timeval \<Rightarrow> int" where
  "usecs t = tv_sec t * 1000000 + tv_usec t"

definition normalized :: "timeval \<Rightarrow> bool" where
  "normalized t \<longleftrightarrow> 0 \<le> tv_usec t \<and> tv_usec t < 1000000"

text \<open>\<^verbatim>\<open>struct net_timer\<close>; the \<^verbatim>\<open>next\<close> pointers are the list itself, and the handler is
  whatever identifies the function registered.\<close>

record 'h net_timer =
  interval :: timeval
  t_last :: timeval
  handler :: 'h

text \<open>\<^verbatim>\<open>net_timer_register\<close>: \<open>mem_ok\<close> says whether \<^verbatim>\<open>memory_alloc\<close> succeeds, \<open>now\<close> is
  what \<^verbatim>\<open>gettimeofday\<close> returns. The new timer goes to the head of the list.\<close>

definition net_timer_register ::
  "bool \<Rightarrow> timeval \<Rightarrow> 'h \<Rightarrow> timeval \<Rightarrow> 'h net_timer list \<Rightarrow> int \<times> 'h net_timer list" where
  "net_timer_register mem_ok iv h now timers =
     (if \<not> mem_ok then (-1, timers)
      else (0, \<lparr>interval = iv, t_last = now, handler = h\<rparr> # timers))"

text \<open>A start-up sequence: registrations \<open>(interval, handler, time of registration)\<close> done
  one after the other, every allocation succeeding.\<close>

definition register_all :: "(timeval \<times> 'h \<times> timeval) list \<Rightarrow> 'h net_timer list" where
  "register_all regs =
     foldl (\<lambda>timers (iv, h, now). snd (net_timer_register True iv h now timers)) [] regs"

text \<open>\<^verbatim>\<open>net_timer_handler\<close>, from the \<open>k\<close>-th timer of the list on. \<open>clk k\<close> is the time
  \<^verbatim>\<open>gettimeofday\<close> returns in the iteration for the \<open>k\<close>-th timer. The result is the list
  with the updated \<^verbatim>\<open>last\<close> fields and the handlers called, in call order.\<close>

fun net_timer_handler_from ::
  "nat \<Rightarrow> (nat \<Rightarrow> timeval) \<Rightarrow> 'h net_timer list \<Rightarrow> 'h net_timer list \<times> 'h list" where
  "net_timer_handler_from k clk [] = ([], [])"
| "net_timer_handler_from k clk (timer # rest) =
     (let now = clk k;
          diff = timersub now (t_last timer);
          (rest', calls) = net_timer_handler_from (Suc k) clk rest
      in if timercmp_lt (interval timer) diff
         then (timer\<lparr>t_last := now\<rparr> # rest', handler timer # calls)
         else (timer # rest', calls))"

definition net_timer_handler ::
  "(nat \<Rightarrow> timeval) \<Rightarrow> 'h net_timer list \<Rightarrow> 'h net_timer list \<times> 'h list" where
  "net_timer_handler clk timers = net_timer_handler_from 0 clk timers"

text \<open>The firing test of one timer at time \<open>now\<close>.\<close>

definition fires :: "timeval \<Rightarrow> 'h net_timer \<Rightarrow> bool" where
  "fires now timer = timercmp_lt (interval timer) (timersub now (t_last timer))"

subsection \<open>Example timers\<close>

definition ex_t0 :: timeval where
  "ex_t0 = \<lparr>tv_sec = 100, tv_usec = 950000\<rparr>"

definition ex_iv :: timeval where
  "ex_iv = \<lparr>tv_sec = 0, tv_usec = 100000\<rparr>"

text \<open>Exactly one interval after \<open>ex_t0\<close>, and one microsecond later.\<close>

definition ex_t_eq :: timeval where
  "ex_t_eq = \<lparr>tv_sec = 101, tv_usec = 50000\<rparr>"

definition ex_t_after :: timeval where
  "ex_t_after = \<lparr>tv_sec = 101, tv_usec = 50001\<rparr>"

definition ex_regs :: "(timeval \<times> nat \<times> timeval) list" where
  "ex_regs = [(ex_iv, 1, ex_t0), (ex_iv, 2, ex_t0)]"

section \<open>Scheduling context (platform/linux/sched.c)\<close>

text \<open>What a call leaves behind besides the new state: a broadcast on the condition
  variable of the context at hand, a call of \<^verbatim>\<open>tcp_output_segment\<close> with its arguments
  \<open>seq ack flg wnd data local foreign\<close>, or a line written by \<^verbatim>\<open>errorf\<close>.\<close>

datatype event =
    Broadcast
  | Segment uint32_t uint32_t uint8_t uint16_t "uint8_t list" ip_endpoint ip_endpoint
  | Errorf string

definition sched_ctx_init :: "sched_ctx \<Rightarrow> sched_ctx" where
  "sched_ctx_init c = c\<lparr>interrupted := 0, wc := 0\<rparr>"

text \<open>\<^verbatim>\<open>pthread_cond_destroy\<close> of the C library: it returns 0, or an error number, which is
  positive and never -1. Following the comment in sched.c the error is taken to arise
  exactly when tasks are waiting on the condition variable, and to be \<^verbatim>\<open>EBUSY\<close>.\<close>

definition EBUSY :: int where "EBUSY = 16"

definition pthread_cond_destroy :: "sched_ctx \<Rightarrow> int" where
  "pthread_cond_destroy c = (if wc c \<noteq> 0 then EBUSY else 0)"

text \<open>\<^verbatim>\<open>sched_ctx_destroy\<close> returns what \<^verbatim>\<open>pthread_cond_destroy\<close> returns.\<close>

definition sched_ctx_destroy :: "sched_ctx \<Rightarrow> int" where
  "sched_ctx_destroy c = pthread_cond_destroy c"

text \<open>\<^verbatim>\<open>sched_sleep\<close> is one call with a suspension in the middle. \<open>sched_sleep_enter\<close> is
  the part before \<^verbatim>\<open>pthread_cond_wait\<close>: \<open>Inl (-1)\<close> when the call returns at once because
  the latch is set, \<open>Inr\<close> the context with the task counted in when it parks.
  \<open>sched_sleep_leave\<close> is the part after the wait; \<open>ret\<close> is what the wait returned.\<close>

definition sched_sleep_enter :: "sched_ctx \<Rightarrow> int + sched_ctx" where
  "sched_sleep_enter c =
     (if interrupted c \<noteq> 0 then Inl (-1) else Inr (c\<lparr>wc := wc c + 1\<rparr>))"

definition sched_sleep_leave :: "sched_ctx \<Rightarrow> int \<Rightarrow> int \<times> sched_ctx" where
  "sched_sleep_leave c ret =
     (let c1 = c\<lparr>wc := wc c - 1\<rparr>
      in if interrupted c1 \<noteq> 0
         then (-1, if wc c1 = 0 then c1\<lparr>interrupted := 0\<rparr> else c1)
         else (ret, c1))"

definition sched_wakeup :: "sched_ctx \<Rightarrow> sched_ctx \<times> event list" where
  "sched_wakeup c = (c, [Broadcast])"

definition sched_interrupt :: "sched_ctx \<Rightarrow> sched_ctx \<times> event list" where
  "sched_interrupt c = (c\<lparr>interrupted := 1\<rparr>, [Broadcast])"

text \<open>A schedule of what the tasks do with one context, each step under the mutex: a task
  calls \<^verbatim>\<open>sched_sleep\<close> (\<open>Call\<close>), or a parked task comes back from its wait, which returned
  the given value (\<open>Return\<close>). \<open>sched_run\<close> plays the schedule and lists what each step that
  ends a \<^verbatim>\<open>sched_sleep\<close> call handed to its caller; a \<open>Call\<close> that parks ends nothing.\<close>

datatype sched_step = Call | Return int

fun sched_run :: "sched_step list \<Rightarrow> sched_ctx \<Rightarrow> sched_ctx \<times> int list" where
  "sched_run [] c = (c, [])"
| "sched_run (Call # steps) c =
     (case sched_sleep_enter c of
        Inl r \<Rightarrow> (let (c', rs) = sched_run steps c in (c', r # rs))
      | Inr c1 \<Rightarrow> sched_run steps c1)"
| "sched_run (Return ret # steps) c =
     (let (r, c1) = sched_sleep_leave c ret; (c', rs) = sched_run steps c1 in (c', r # rs))"

definition returns_in :: "sched_step list \<Rightarrow> nat" where
  "returns_in steps = length (filter (\<lambda>s. s \<noteq> Call) steps)"

section \<open>TCP engine (tcp.c)\<close>

definition TCP_FLG_FIN :: uint8_t where "TCP_FLG_FIN = 0x01"
definition TCP_FLG_SYN :: uint8_t where "TCP_FLG_SYN = 0x02"
definition TCP_FLG_RST :: uint8_t where "TCP_FLG_RST = 0x04"
definition TCP_FLG_PSH :: uint8_t where "TCP_FLG_PSH = 0x08"
definition TCP_FLG_ACK :: uint8_t where "TCP_FLG_ACK = 0x10"
definition TCP_FLG_URG :: uint8_t where "TCP_FLG_URG = 0x20"

definition TCP_FLG_ISSET :: "uint8_t \<Rightarrow> uint8_t \<Rightarrow> bool" where
  "TCP_FLG_ISSET x y \<longleftrightarrow> ((x AND 0x3f) AND y) \<noteq> 0"

definition TCP_PCB_SIZE :: nat where "TCP_PCB_SIZE = 16"

text \<open>Size of the receive buffer, \<^verbatim>\<open>sizeof(pcb->buf)\<close>.\<close>

definition BUF_SIZE :: nat where "BUF_SIZE = 16"

definition TCP_DEFAULT_RTO :: uint32_t where "TCP_DEFAULT_RTO = 200000"
definition TCP_RETRANSMIT_DEADLINE :: int where "TCP_RETRANSMIT_DEADLINE = 12"

text \<open>What a call reads from outside the PCB table: \<open>gettimeofday k\<close> is the value of the
  \<open>k\<close>-th reading of the clock during the call, \<open>rnd\<close> the value \<^verbatim>\<open>random()\<close> yields as
  stored in a \<^verbatim>\<open>uint32_t\<close>, \<open>mem_ok\<close> whether \<^verbatim>\<open>memory_alloc\<close> and \<^verbatim>\<open>queue_push\<close> succeed,
  \<open>ip_ok\<close> whether \<^verbatim>\<open>ip_output\<close> succeeds.\<close>

record env =
  gettimeofday :: "nat \<Rightarrow> timeval"
  rnd :: uint32_t
  mem_ok :: bool
  ip_ok :: bool

text \<open>An access outside an array is undefined in C; the model stops with a fault there.\<close>

datatype fault = BufferOverrun

text \<open>\<^verbatim>\<open>tcp_pcb_get\<close>: the slot of a handle, unless out of range or FREE.\<close>

definition tcp_pcb_get :: "tcp_pcb list \<Rightarrow> int \<Rightarrow> nat option" where
  "tcp_pcb_get pcbs i =
     (if i < 0 \<or> i \<ge> int (length pcbs) then None
      else if state (pcbs ! nat i) = TCP_PCB_STATE_FREE then None
      else Some (nat i))"

text \<open>\<^verbatim>\<open>tcp_pcb_release\<close>: when \<^verbatim>\<open>sched_ctx_destroy\<close> returns -1 it only wakes the tasks
  that use the PCB; otherwise the slot is zeroed, which makes it FREE. The test is for -1,
  a value \<^verbatim>\<open>sched_ctx_destroy\<close> does not return, so the slot is always zeroed.\<close>

definition tcp_pcb_release :: "tcp_pcb \<Rightarrow> tcp_pcb \<times> event list" where
  "tcp_pcb_release pcb =
     (if sched_ctx_destroy (ctx pcb) = -1
      then (pcb\<lparr>ctx := fst (sched_wakeup (ctx pcb))\<rparr>, snd (sched_wakeup (ctx pcb)))
      else (tcp_pcb_zero, []))"

text \<open>\<^verbatim>\<open>tcp_output_segment\<close> as seen by its callers: the call is recorded with its
  arguments, and the result is -1 when \<^verbatim>\<open>ip_output\<close> fails, the payload length otherwise.
  The bytes it builds are \<open>tcp_output_segment_bytes\<close> below.\<close>

definition tcp_output_segment ::
  "env \<Rightarrow> uint32_t \<Rightarrow> uint32_t \<Rightarrow> uint8_t \<Rightarrow> uint16_t \<Rightarrow> uint8_t list \<Rightarrow> ip_endpoint \<Rightarrow> ip_endpoint
   \<Rightarrow> int \<times> event list" where
  "tcp_output_segment ev sq ak flg wnd data l f =
     (if ip_ok ev then int (length data) else -1, [Segment sq ak flg wnd data l f])"

text \<open>Modelled from the spec: the queue functions \<^verbatim>\<open>queue_push\<close>, \<^verbatim>\<open>queue_peek\<close>,
  \<^verbatim>\<open>queue_pop\<close> and \<^verbatim>\<open>queue_foreach\<close> live in util.c, which is not among the sources. The
  specification has the retransmission queue a FIFO: an entry is pushed at the tail, peeked
  and popped at the head, and a walk over the queue starts at the head.\<close>

text \<open>\<^verbatim>\<open>tcp_retransmit_queue_add\<close>: a new entry at the tail, with the default timeout and both
  times set to the clock; -1 and no entry when memory runs out.\<close>

definition tcp_retransmit_queue_add ::
  "env \<Rightarrow> tcp_pcb \<Rightarrow> uint32_t \<Rightarrow> uint8_t \<Rightarrow> uint8_t list \<Rightarrow> int \<times> tcp_pcb" where
  "tcp_retransmit_queue_add ev pcb sq flg data =
     (if \<not> mem_ok ev then (-1, pcb)
      else (0, pcb\<lparr>queue := queue pcb @
              [\<lparr>e_first = gettimeofday ev 0, e_last = gettimeofday ev 0, e_rto = TCP_DEFAULT_RTO,
                e_seq = sq, e_flg = flg, e_data = data\<rparr>]\<rparr>))"

text \<open>The loop of \<^verbatim>\<open>tcp_retransmit_queue_cleanup\<close>: entries are popped from the head until
  the queue is empty or the head has \<^verbatim>\<open>seq >= snd.una\<close>.\<close>

fun cleanup_loop :: "uint32_t \<Rightarrow> tcp_queue_entry list \<Rightarrow> tcp_queue_entry list" where
  "cleanup_loop una [] = []"
| "cleanup_loop una (entry # rest) =
     (if e_seq entry \<ge> una then entry # rest else cleanup_loop una rest)"

definition tcp_retransmit_queue_cleanup :: "tcp_pcb \<Rightarrow> tcp_pcb" where
  "tcp_retransmit_queue_cleanup pcb = pcb\<lparr>queue := cleanup_loop (snd_una pcb) (queue pcb)\<rparr>"

text \<open>\<^verbatim>\<open>tcp_retransmit_queue_emit\<close> for one entry, \<open>now\<close> being the clock reading of this
  call. The result is the PCB, the entry and the events.\<close>

definition tcp_retransmit_queue_emit ::
  "env \<Rightarrow> timeval \<Rightarrow> tcp_pcb \<Rightarrow> tcp_queue_entry \<Rightarrow> tcp_pcb \<times> tcp_queue_entry \<times> event list" where
  "tcp_retransmit_queue_emit ev now pcb entry =
     (let diff = timersub now (e_first entry)
      in if tv_sec diff \<ge> TCP_RETRANSMIT_DEADLINE
         then (pcb\<lparr>state := TCP_PCB_STATE_CLOSED, ctx := fst (sched_wakeup (ctx pcb))\<rparr>, entry,
               snd (sched_wakeup (ctx pcb)))
         else let timeout = timeval_add_usec (e_last entry) (unat (e_rto entry))
              in if timercmp_gt now timeout
                 then (pcb, entry\<lparr>e_last := now, e_rto := e_rto entry * 2\<rparr>,
                       snd (tcp_output_segment ev (e_seq entry) (rcv_nxt pcb) (e_flg entry)
                              (rcv_wnd pcb) (e_data entry) (local pcb) (foreign pcb)))
                 else (pcb, entry, []))"

text \<open>The walk of \<^verbatim>\<open>queue_foreach\<close> with \<^verbatim>\<open>tcp_retransmit_queue_emit\<close>, from the \<open>k\<close>-th
  entry on; the call for the \<open>k\<close>-th entry reads the clock as \<open>clk k\<close>.\<close>

fun emit_from ::
  "env \<Rightarrow> (nat \<Rightarrow> timeval) \<Rightarrow> nat \<Rightarrow> tcp_pcb \<Rightarrow> tcp_queue_entry list
   \<Rightarrow> tcp_pcb \<times> tcp_queue_entry list \<times> event list" where
  "emit_from ev clk k pcb [] = (pcb, [], [])"
| "emit_from ev clk k pcb (entry # rest) =
     (let (pcb1, entry1, evs1) = tcp_retransmit_queue_emit ev (clk k) pcb entry;
          (pcb2, rest2, evs2) = emit_from ev clk (Suc k) pcb1 rest
      in (pcb2, entry1 # rest2, evs1 @ evs2))"

definition tcp_retransmit_queue_emit_all ::
  "env \<Rightarrow> (nat \<Rightarrow> timeval) \<Rightarrow> tcp_pcb \<Rightarrow> tcp_pcb \<times> event list" where
  "tcp_retransmit_queue_emit_all ev clk pcb =
     (let (pcb1, q, evs) = emit_from ev clk 0 pcb (queue pcb) in (pcb1\<lparr>queue := q\<rparr>, evs))"

text \<open>\<^verbatim>\<open>tcp_output\<close>: result, PCB (its queue may have grown) and events.\<close>

definition tcp_output :: "env \<Rightarrow> tcp_pcb \<Rightarrow> uint8_t \<Rightarrow> uint8_t list \<Rightarrow> int \<times> tcp_pcb \<times> event list" where
  "tcp_output ev pcb flg data =
     (let sq = (if TCP_FLG_ISSET flg TCP_FLG_SYN then iss pcb else snd_nxt pcb);
          pcb1 = (if TCP_FLG_ISSET flg (TCP_FLG_SYN OR TCP_FLG_FIN) \<or> length data \<noteq> 0
                  then snd (tcp_retransmit_queue_add ev pcb sq flg data) else pcb);
          (r, evs) = tcp_output_segment ev sq (rcv_nxt pcb1) flg (rcv_wnd pcb1) data
                       (local pcb1) (foreign pcb1)
      in (r, pcb1, evs))"

text \<open>\<^verbatim>\<open>tcp_retransmit_timer\<close>: every slot that is not FREE has its whole queue walked.
  \<open>clk i k\<close> is the clock as read for the \<open>k\<close>-th entry of slot \<open>i\<close>. Events carry the slot.\<close>

fun retransmit_timer_from ::
  "env \<Rightarrow> (nat \<Rightarrow> nat \<Rightarrow> timeval) \<Rightarrow> nat \<Rightarrow> tcp_pcb list \<Rightarrow> tcp_pcb list \<times> (nat \<times> event) list" where
  "retransmit_timer_from ev clk i [] = ([], [])"
| "retransmit_timer_from ev clk i (pcb # rest) =
     (let (pcb1, evs1) = (if state pcb = TCP_PCB_STATE_FREE then (pcb, [])
                          else tcp_retransmit_queue_emit_all ev (clk i) pcb);
          (rest2, evs2) = retransmit_timer_from ev clk (Suc i) rest
      in (pcb1 # rest2, map (Pair i) evs1 @ evs2))"

definition tcp_retransmit_timer ::
  "env \<Rightarrow> (nat \<Rightarrow> nat \<Rightarrow> timeval) \<Rightarrow> tcp_pcb list \<Rightarrow> tcp_pcb list \<times> (nat \<times> event) list" where
  "tcp_retransmit_timer ev clk pcbs = retransmit_timer_from ev clk 0 pcbs"

text \<open>The deadline test of \<^verbatim>\<open>tcp_retransmit_queue_emit\<close> on its own.\<close>

definition expired :: "timeval \<Rightarrow> tcp_queue_entry \<Rightarrow> bool" where
  "expired now e \<longleftrightarrow> tv_sec (timersub now (e_first e)) \<ge> TCP_RETRANSMIT_DEADLINE"

subsection \<open>Segment arrival\<close>

text \<open>\<^verbatim>\<open>struct tcp_segment_info\<close>.\<close>

record tcp_segment_info =
  seg_seq :: uint32_t
  seg_ack :: uint32_t
  seg_len :: uint16_t
  seg_wnd :: uint16_t
  seg_up :: uint16_t

text \<open>The replies of \<^verbatim>\<open>tcp_segment_arrives\<close> when no PCB is found or the PCB is CLOSED.\<close>

definition arrives_closed ::
  "env \<Rightarrow> tcp_segment_info \<Rightarrow> uint8_t \<Rightarrow> ip_endpoint \<Rightarrow> ip_endpoint \<Rightarrow> event list" where
  "arrives_closed ev seg flags l f =
     (if TCP_FLG_ISSET flags TCP_FLG_RST then []
      else if \<not> TCP_FLG_ISSET flags TCP_FLG_ACK
      then snd (tcp_output_segment ev 0 (seg_seq seg + ucast (seg_len seg))
                  (TCP_FLG_RST OR TCP_FLG_ACK) 0 [] l f)
      else snd (tcp_output_segment ev (seg_ack seg) 0 TCP_FLG_RST 0 [] l f))"

text \<open>\<^verbatim>\<open>case TCP_PCB_STATE_LISTEN\<close>.\<close>

definition arrives_listen ::
  "env \<Rightarrow> tcp_segment_info \<Rightarrow> uint8_t \<Rightarrow> ip_endpoint \<Rightarrow> ip_endpoint \<Rightarrow> tcp_pcb
   \<Rightarrow> tcp_pcb \<times> event list" where
  "arrives_listen ev seg flags l f pcb =
     (if TCP_FLG_ISSET flags TCP_FLG_RST then (pcb, [])
      else if TCP_FLG_ISSET flags TCP_FLG_ACK
      then (pcb, snd (tcp_output_segment ev (seg_ack seg) 0 TCP_FLG_RST 0 [] l f))
      else if TCP_FLG_ISSET flags TCP_FLG_SYN
      then (let pcb1 = pcb\<lparr>local := l, foreign := f, rcv_wnd := of_nat BUF_SIZE,
                             rcv_nxt := seg_seq seg + 1, irs := seg_seq seg, iss := rnd ev\<rparr>;
                (r, pcb2, evs) = tcp_output ev pcb1 (TCP_FLG_SYN OR TCP_FLG_ACK) []
            in (pcb2\<lparr>snd_nxt := iss pcb2 + 1, snd_una := iss pcb2,
                     state := TCP_PCB_STATE_SYN_RECEIVED\<rparr>, evs))
      else (pcb, []))"

text \<open>\<^verbatim>\<open>case TCP_PCB_STATE_SYN_SENT\<close>. \<open>acceptable\<close> is the local variable of that name.\<close>

definition arrives_syn_sent ::
  "env \<Rightarrow> tcp_segment_info \<Rightarrow> uint8_t \<Rightarrow> ip_endpoint \<Rightarrow> ip_endpoint \<Rightarrow> tcp_pcb
   \<Rightarrow> tcp_pcb \<times> event list" where
  "arrives_syn_sent ev seg flags l f pcb =
     (if TCP_FLG_ISSET flags TCP_FLG_ACK
         \<and> (seg_ack seg \<le> iss pcb \<or> seg_ack seg > snd_nxt pcb)
      then (pcb, snd (tcp_output_segment ev (seg_ack seg) 0 TCP_FLG_RST 0 [] l f))
      else
       (let acceptable = (TCP_FLG_ISSET flags TCP_FLG_ACK
                          \<and> snd_una pcb \<le> seg_ack seg \<and> seg_ack seg \<le> snd_nxt pcb)
        in if TCP_FLG_ISSET flags TCP_FLG_RST
           then (let pcb1 = pcb\<lparr>state := TCP_PCB_STATE_CLOSED\<rparr>;
                     (c, evs1) = sched_wakeup (ctx pcb1);
                     (pcb2, evs2) = tcp_pcb_release (pcb1\<lparr>ctx := c\<rparr>)
                 in (pcb2, (if acceptable then [Errorf ''error: connection reset''] else [])
                            @ evs1 @ evs2))
           else if TCP_FLG_ISSET flags TCP_FLG_SYN
           then (let pcb1 = pcb\<lparr>rcv_nxt := seg_seq seg + 1, irs := seg_seq seg\<rparr>;
                     pcb2 = (if acceptable
                             then tcp_retransmit_queue_cleanup (pcb1\<lparr>snd_una := seg_ack seg\<rparr>)
                             else pcb1)
                 in if snd_una pcb2 > iss pcb2
                    then (let pcb3 = pcb2\<lparr>state := TCP_PCB_STATE_ESTABLISHED\<rparr>;
                              (r, pcb4, evs) = tcp_output ev pcb3 TCP_FLG_ACK [];
                              pcb5 = pcb4\<lparr>snd_wnd := seg_wnd seg, snd_wl1 := seg_seq seg,
                                          snd_wl2 := seg_ack seg\<rparr>;
                              (c, evs1) = sched_wakeup (ctx pcb5)
                          in (pcb5\<lparr>ctx := c\<rparr>, evs @ evs1))
                    else (let pcb3 = pcb2\<lparr>state := TCP_PCB_STATE_SYN_RECEIVED\<rparr>;
                              (r, pcb4, evs) = tcp_output ev pcb3 (TCP_FLG_SYN OR TCP_FLG_ACK) []
                          in (pcb4, evs)))
           else (pcb, [])))"

text \<open>First check of the other states, the sequence number: the value of \<^verbatim>\<open>acceptable\<close>
  after the second \<^verbatim>\<open>switch\<close>. CLOSING and TIME_WAIT are not among its cases.\<close>

definition seq_acceptable :: "tcp_segment_info \<Rightarrow> tcp_pcb \<Rightarrow> bool" where
  "seq_acceptable seg pcb =
     (if state pcb \<in> {TCP_PCB_STATE_SYN_RECEIVED, TCP_PCB_STATE_ESTABLISHED,
                       TCP_PCB_STATE_FIN_WAIT1, TCP_PCB_STATE_FIN_WAIT2,
                       TCP_PCB_STATE_CLOSE_WAIT, TCP_PCB_STATE_LAST_ACK}
      then (if seg_len seg = 0
            then (if rcv_wnd pcb = 0 then seg_seq seg = rcv_nxt pcb
                  else rcv_nxt pcb \<le> seg_seq seg
                       \<and> seg_seq seg < rcv_nxt pcb + ucast (rcv_wnd pcb))
            else (if rcv_wnd pcb = 0 then False
                  else (rcv_nxt pcb \<le> seg_seq seg
                        \<and> seg_seq seg < rcv_nxt pcb + ucast (rcv_wnd pcb))
                     \<or> (rcv_nxt pcb \<le> seg_seq seg + ucast (seg_len seg) - 1
                        \<and> seg_seq seg + ucast (seg_len seg) - 1
                            < rcv_nxt pcb + ucast (rcv_wnd pcb))))
      else False)"

text \<open>The tail shared by the branches that give the connection up: the queue is walked
  with \<^verbatim>\<open>tcp_retransmit_queue_emit_all\<close> when \<open>emit\<close> is set, then the PCB is marked CLOSED
  and released.\<close>

definition close_and_release :: "env \<Rightarrow> bool \<Rightarrow> tcp_pcb \<Rightarrow> tcp_pcb \<times> event list" where
  "close_and_release ev emit pcb =
     (let (pcb1, evs1) = (if emit then tcp_retransmit_queue_emit_all ev (gettimeofday ev) pcb
                          else (pcb, []));
          (pcb2, evs2) = tcp_pcb_release (pcb1\<lparr>state := TCP_PCB_STATE_CLOSED\<rparr>)
      in (pcb2, evs1 @ evs2))"

text \<open>Second check, the RST bit: \<open>Some\<close> result when the branch returns, \<open>None\<close> when the
  \<^verbatim>\<open>switch\<close> has no case for the state and control falls to the next check.\<close>

definition arrives_rst :: "env \<Rightarrow> tcp_pcb \<Rightarrow> (tcp_pcb \<times> event list) option" where
  "arrives_rst ev pcb =
     (if state pcb = TCP_PCB_STATE_SYN_RECEIVED
      then (if active pcb \<noteq> 0
            then (let (pcb1, evs) = tcp_pcb_release (pcb\<lparr>state := TCP_PCB_STATE_CLOSED\<rparr>)
                  in Some (pcb1, Errorf ''error: connection refused'' # evs))
            else Some (pcb\<lparr>state := TCP_PCB_STATE_LISTEN\<rparr>, []))
      else if state pcb \<in> {TCP_PCB_STATE_ESTABLISHED, TCP_PCB_STATE_FIN_WAIT1,
                            TCP_PCB_STATE_FIN_WAIT2, TCP_PCB_STATE_CLOSE_WAIT}
      then Some (close_and_release ev True pcb)
      else if state pcb \<in> {TCP_PCB_STATE_CLOSING, TCP_PCB_STATE_LAST_ACK,
                            TCP_PCB_STATE_TIME_WAIT}
      then Some (close_and_release ev False pcb)
      else None)"

text \<open>Fourth check, the SYN bit.\<close>

definition arrives_syn :: "env \<Rightarrow> tcp_pcb \<Rightarrow> (tcp_pcb \<times> event list) option" where
  "arrives_syn ev pcb =
     (if state pcb \<in> {TCP_PCB_STATE_SYN_RECEIVED, TCP_PCB_STATE_ESTABLISHED,
                       TCP_PCB_STATE_FIN_WAIT1, TCP_PCB_STATE_FIN_WAIT2,
                       TCP_PCB_STATE_CLOSE_WAIT, TCP_PCB_STATE_CLOSING,
                       TCP_PCB_STATE_LAST_ACK, TCP_PCB_STATE_TIME_WAIT}
      then Some (close_and_release ev True pcb)
      else None)"

text \<open>Fifth check, the ACK field, for a segment that carries ACK. \<open>Inl\<close> is a result the
  function returns with at once, \<open>Inr\<close> one it carries on to the segment text with.
  \<open>ack_update\<close> is the body shared by ESTABLISHED, FIN_WAIT1, FIN_WAIT2 and CLOSE_WAIT,
  which SYN_RECEIVED falls into once it has become ESTABLISHED.\<close>

definition ack_update ::
  "env \<Rightarrow> tcp_segment_info \<Rightarrow> tcp_pcb \<Rightarrow> (tcp_pcb \<times> event list) + (tcp_pcb \<times> event list)" where
  "ack_update ev seg pcb =
     (let fin_wait = (\<lambda>p. if state p = TCP_PCB_STATE_FIN_WAIT1 \<and> seg_ack seg = snd_nxt p
                          then p\<lparr>state := TCP_PCB_STATE_FIN_WAIT2\<rparr> else p)
      in if snd_una pcb < seg_ack seg \<and> seg_ack seg \<le> snd_nxt pcb
         then (let pcb1 = tcp_retransmit_queue_cleanup (pcb\<lparr>snd_una := seg_ack seg\<rparr>);
                   pcb2 = (if snd_wl1 pcb1 < seg_seq seg
                              \<or> (snd_wl1 pcb1 = seg_seq seg \<and> snd_wl2 pcb1 \<le> seg_ack seg)
                           then pcb1\<lparr>snd_wnd := seg_wnd seg, snd_wl2 := seg_seq seg,
                                      snd_wl2 := seg_ack seg\<rparr>
                           else pcb1)
               in Inr (fin_wait pcb2, []))
         else if seg_ack seg < snd_una pcb then Inr (fin_wait pcb, [])
         else if seg_ack seg > snd_nxt pcb
         then (let (r, pcb1, evs) = tcp_output ev pcb TCP_FLG_ACK [] in Inl (pcb1, evs))
         else Inr (fin_wait pcb, []))"

definition arrives_ack ::
  "env \<Rightarrow> tcp_segment_info \<Rightarrow> ip_endpoint \<Rightarrow> ip_endpoint \<Rightarrow> tcp_pcb
   \<Rightarrow> (tcp_pcb \<times> event list) + (tcp_pcb \<times> event list)" where
  "arrives_ack ev seg l f pcb =
     (if state pcb = TCP_PCB_STATE_SYN_RECEIVED
      then (if snd_una pcb \<le> seg_ack seg \<and> seg_ack seg \<le> snd_nxt pcb
            then (let (c, evs1) = sched_wakeup (ctx pcb)
                  in case ack_update ev seg (pcb\<lparr>state := TCP_PCB_STATE_ESTABLISHED, ctx := c\<rparr>) of
                       Inl (pcb1, evs) \<Rightarrow> Inl (pcb1, evs1 @ evs)
                     | Inr (pcb1, evs) \<Rightarrow> Inr (pcb1, evs1 @ evs))
            else Inl (pcb, snd (tcp_output_segment ev (seg_ack seg) 0 TCP_FLG_RST 0 [] l f)))
      else if state pcb \<in> {TCP_PCB_STATE_ESTABLISHED, TCP_PCB_STATE_FIN_WAIT1,
                            TCP_PCB_STATE_FIN_WAIT2, TCP_PCB_STATE_CLOSE_WAIT}
      then ack_update ev seg pcb
      else if state pcb = TCP_PCB_STATE_LAST_ACK
      then (if seg_ack seg = snd_nxt pcb
            then Inl (tcp_pcb_release (pcb\<lparr>state := TCP_PCB_STATE_CLOSED\<rparr>))
            else Inl (pcb, []))
      else Inr (pcb, []))"

text \<open>Seventh step, the segment text. The copy goes to \<^verbatim>\<open>buf + (sizeof(buf) - rcv.wnd)\<close>;
  it stays inside the 16 bytes of \<^verbatim>\<open>buf\<close> only when \<^verbatim>\<open>rcv.wnd\<close> is at most 16 and the
  payload is no longer than \<^verbatim>\<open>rcv.wnd\<close>.\<close>

definition arrives_text ::
  "env \<Rightarrow> tcp_segment_info \<Rightarrow> uint8_t list \<Rightarrow> tcp_pcb \<Rightarrow> fault + (tcp_pcb \<times> event list)" where
  "arrives_text ev seg data pcb =
     (if state pcb = TCP_PCB_STATE_ESTABLISHED \<and> length data \<noteq> 0
      then (if unat (rcv_wnd pcb) \<le> BUF_SIZE \<and> length data \<le> unat (rcv_wnd pcb)
            then (let off = BUF_SIZE - unat (rcv_wnd pcb);
                      pcb1 = pcb\<lparr>buf := take off (buf pcb) @ data
                                         @ drop (off + length data) (buf pcb),
                                 rcv_nxt := seg_seq seg + ucast (seg_len seg),
                                 rcv_wnd := rcv_wnd pcb - of_nat (length data)\<rparr>;
                      (r, pcb2, evs) = tcp_output ev pcb1 TCP_FLG_ACK [];
                      (c, evs1) = sched_wakeup (ctx pcb2)
                  in Inr (pcb2\<lparr>ctx := c\<rparr>, evs @ evs1))
            else Inl BufferOverrun)
      else Inr (pcb, []))"

text \<open>Eighth step, the FIN bit.\<close>

definition arrives_fin ::
  "env \<Rightarrow> tcp_segment_info \<Rightarrow> uint8_t \<Rightarrow> tcp_pcb \<Rightarrow> tcp_pcb \<times> event list" where
  "arrives_fin ev seg flags pcb =
     (if TCP_FLG_ISSET flags TCP_FLG_FIN
      then (if state pcb \<in> {TCP_PCB_STATE_CLOSED, TCP_PCB_STATE_LISTEN, TCP_PCB_STATE_SYN_SENT}
            then (pcb, [])
            else (let (r, pcb1, evs) = tcp_output ev (pcb\<lparr>rcv_nxt := seg_seq seg + 1\<rparr>) TCP_FLG_ACK []
                  in if state pcb1 \<in> {TCP_PCB_STATE_SYN_RECEIVED, TCP_PCB_STATE_ESTABLISHED}
                     then (let (c, evs1) = sched_wakeup (ctx pcb1)
                           in (pcb1\<lparr>state := TCP_PCB_STATE_CLOSE_WAIT, ctx := c\<rparr>, evs @ evs1))
                     else if state pcb1 = TCP_PCB_STATE_FIN_WAIT1
                     then (if seg_ack seg = snd_nxt pcb1
                           then (pcb1\<lparr>state := TCP_PCB_STATE_TIME_WAIT,
                                      time_wait := gettimeofday ev 0\<rparr>, evs)
                           else (pcb1\<lparr>state := TCP_PCB_STATE_CLOSING\<rparr>, evs))
                     else if state pcb1 = TCP_PCB_STATE_FIN_WAIT2
                     then (pcb1\<lparr>state := TCP_PCB_STATE_TIME_WAIT,
                                time_wait := gettimeofday ev 0\<rparr>, evs)
                     else (pcb1, evs)))
      else (pcb, []))"

text \<open>The part of \<^verbatim>\<open>tcp_segment_arrives\<close> after the \<^verbatim>\<open>/* Otherwise */\<close> comment, on the
  selected PCB.\<close>

definition arrives_otherwise ::
  "env \<Rightarrow> tcp_segment_info \<Rightarrow> uint8_t \<Rightarrow> uint8_t list \<Rightarrow> ip_endpoint \<Rightarrow> ip_endpoint \<Rightarrow> tcp_pcb
   \<Rightarrow> fault + (tcp_pcb \<times> event list)" where
  "arrives_otherwise ev seg flags data l f pcb =
     (if \<not> seq_acceptable seg pcb
      then (if \<not> TCP_FLG_ISSET flags TCP_FLG_RST
            then (let (r, pcb1, evs) = tcp_output ev pcb TCP_FLG_ACK [] in Inr (pcb1, evs))
            else Inr (pcb, []))
      else if TCP_FLG_ISSET flags TCP_FLG_RST \<and> arrives_rst ev pcb \<noteq> None
      then Inr (the (arrives_rst ev pcb))
      else if TCP_FLG_ISSET flags TCP_FLG_SYN \<and> arrives_syn ev pcb \<noteq> None
      then Inr (the (arrives_syn ev pcb))
      else if \<not> TCP_FLG_ISSET flags TCP_FLG_ACK then Inr (pcb, [])
      else (case arrives_ack ev seg l f pcb of
              Inl r \<Rightarrow> Inr r
            | Inr (pcb1, evs1) \<Rightarrow>
               (case arrives_text ev seg data pcb1 of
                  Inl e \<Rightarrow> Inl e
                | Inr (pcb2, evs2) \<Rightarrow>
                   (let (pcb3, evs3) = arrives_fin ev seg flags pcb2
                    in Inr (pcb3, evs1 @ evs2 @ evs3)))))"

text \<open>\<^verbatim>\<open>tcp_segment_arrives\<close> on one selected PCB that is not CLOSED.\<close>

definition arrives_pcb ::
  "env \<Rightarrow> tcp_segment_info \<Rightarrow> uint8_t \<Rightarrow> uint8_t list \<Rightarrow> ip_endpoint \<Rightarrow> ip_endpoint \<Rightarrow> tcp_pcb
   \<Rightarrow> fault + (tcp_pcb \<times> event list)" where
  "arrives_pcb ev seg flags data l f pcb =
     (if state pcb = TCP_PCB_STATE_LISTEN then Inr (arrives_listen ev seg flags l f pcb)
      else if state pcb = TCP_PCB_STATE_SYN_SENT then Inr (arrives_syn_sent ev seg flags l f pcb)
      else arrives_otherwise ev seg flags data l f pcb)"

text \<open>\<^verbatim>\<open>tcp_segment_arrives\<close>: the PCB table after the segment and the events, or a fault.
  \<open>data\<close> is the payload, its length the argument \<^verbatim>\<open>len\<close>.\<close>

definition tcp_segment_arrives ::
  "env \<Rightarrow> tcp_segment_info \<Rightarrow> uint8_t \<Rightarrow> uint8_t list \<Rightarrow> ip_endpoint \<Rightarrow> ip_endpoint
   \<Rightarrow> tcp_pcb list \<Rightarrow> fault + (tcp_pcb list \<times> event list)" where
  "tcp_segment_arrives ev seg flags data l f pcbs =
     (case tcp_pcb_select pcbs l (Some f) of
        None \<Rightarrow> Inr (pcbs, arrives_closed ev seg flags l f)
      | Some i \<Rightarrow>
          if state (pcbs ! i) = TCP_PCB_STATE_CLOSED
          then Inr (pcbs, arrives_closed ev seg flags l f)
          else (case arrives_pcb ev seg flags data l f (pcbs ! i) of
                  Inl e \<Rightarrow> Inl e
                | Inr (pcb', evs) \<Rightarrow> Inr (pcbs[i := pcb'], evs)))"

subsection \<open>Building a segment and verifying its checksum\<close>

text \<open>Memory is a list of bytes. The host is taken to be little-endian: a \<^verbatim>\<open>uint16_t\<close> or
  \<^verbatim>\<open>uint32_t\<close> field lies in memory low byte first.\<close>

definition mem16 :: "uint16_t \<Rightarrow> uint8_t list" where
  "mem16 x = [ucast x, ucast (drop_bit 8 x)]"

definition mem32 :: "uint32_t \<Rightarrow> uint8_t list" where
  "mem32 x = [ucast x, ucast (drop_bit 8 x), ucast (drop_bit 16 x), ucast (drop_bit 24 x)]"

text \<open>Modelled from the spec: \<^verbatim>\<open>hton16\<close> and \<^verbatim>\<open>hton32\<close> live in util.c, which is not among
  the sources. The specification has the wire formats big-endian: the value they return
  lies in memory as the bytes of the argument, high byte first.\<close>

definition hton16_mem :: "uint16_t \<Rightarrow> uint8_t list" where
  "hton16_mem x = [ucast (drop_bit 8 x), ucast x]"

definition hton32_mem :: "uint32_t \<Rightarrow> uint8_t list" where
  "hton32_mem x = [ucast (drop_bit 24 x), ucast (drop_bit 16 x), ucast (drop_bit 8 x), ucast x]"

text \<open>Modelled from the spec: \<^verbatim>\<open>cksum16\<close> lives in util.c, which is not among the sources.
  The specification has the TCP checksum span the pseudo-header, the header and the
  payload; that is the Internet checksum: the memory is read as 16-bit words in host
  order, a trailing odd byte counting as a word of its own, the words are added to the
  start value, the carries above 16 bits are folded back in until none is left, and the
  result is complemented.\<close>

fun words16 :: "uint8_t list \<Rightarrow> nat list" where
  "words16 (a # b # rest) = (unat a + 256 * unat b) # words16 rest"
| "words16 [a] = [unat a]"
| "words16 [] = []"

function fold16 :: "nat \<Rightarrow> nat" where
  "fold16 s = (if s < 65536 then s else fold16 (s mod 65536 + s div 65536))"
  by pat_completeness auto
termination
proof (relation "measure id")
  show "wf (measure id)" by simp
next
  fix s :: nat
  assume a: "\<not> s < 65536"
  have "s = 65536 * (s div 65536) + s mod 65536" by simp
  moreover have "1 \<le> s div 65536" using a by (simp add: Suc_le_eq div_greater_zero_iff)
  ultimately have "s mod 65536 + s div 65536 < s" by linarith
  then show "(s mod 65536 + s div 65536, s) \<in> measure id"
    by simp
qed

declare fold16.simps [simp del]

definition cksum16 :: "uint8_t list \<Rightarrow> nat \<Rightarrow> nat \<Rightarrow> uint16_t" where
  "cksum16 mem count init = NOT (of_nat (fold16 (init + sum_list (words16 (take count mem)))))"

definition IP_PROTOCOL_TCP :: uint8_t where "IP_PROTOCOL_TCP = 6"

text \<open>Modelled from the spec: \<^verbatim>\<open>IP_PAYLOAD_SIZE_MAX\<close> is declared in ip.h, which is not among
  the sources. The specification has the standard IPv4 header: a 16-bit total length and a
  header of at least 20 bytes, which leaves 65515 bytes of payload.\<close>

definition IP_PAYLOAD_SIZE_MAX :: nat where "IP_PAYLOAD_SIZE_MAX = 65515"

text \<open>\<^verbatim>\<open>struct pseudo_hdr\<close> in memory, the length already in network order.\<close>

definition pseudo_hdr_mem :: "ip_addr_t \<Rightarrow> ip_addr_t \<Rightarrow> uint16_t \<Rightarrow> uint8_t list" where
  "pseudo_hdr_mem src dst len = mem32 src @ mem32 dst @ [0, IP_PROTOCOL_TCP] @ hton16_mem len"

text \<open>\<^verbatim>\<open>struct tcp_hdr\<close> in memory with the given checksum field.\<close>

definition tcp_hdr_mem ::
  "ip_endpoint \<Rightarrow> ip_endpoint \<Rightarrow> uint32_t \<Rightarrow> uint32_t \<Rightarrow> uint8_t \<Rightarrow> uint16_t \<Rightarrow> uint16_t
   \<Rightarrow> uint8_t list" where
  "tcp_hdr_mem l f sq ak flg wnd csum =
     mem16 (port l) @ mem16 (port f) @ hton32_mem sq @ hton32_mem ak
     @ [push_bit 4 (drop_bit 2 20), flg] @ hton16_mem wnd @ mem16 csum @ mem16 0"

text \<open>The bytes \<^verbatim>\<open>tcp_output_segment\<close> hands to \<^verbatim>\<open>ip_output\<close>. The segment is built in a
  buffer of \<^verbatim>\<open>IP_PAYLOAD_SIZE_MAX\<close> bytes; a payload that does not fit behind the header
  makes \<^verbatim>\<open>memcpy\<close> write past it.\<close>

definition tcp_output_segment_bytes ::
  "uint32_t \<Rightarrow> uint32_t \<Rightarrow> uint8_t \<Rightarrow> uint16_t \<Rightarrow> uint8_t list \<Rightarrow> ip_endpoint \<Rightarrow> ip_endpoint
   \<Rightarrow> fault + uint8_t list" where
  "tcp_output_segment_bytes sq ak flg wnd data l f =
     (if 20 + length data > IP_PAYLOAD_SIZE_MAX then Inl BufferOverrun
      else (let total = 20 + length data;
                pseudo = pseudo_hdr_mem (addr l) (addr f) (of_nat total);
                psum = NOT (cksum16 pseudo 12 0);
                csum = cksum16 (tcp_hdr_mem l f sq ak flg wnd 0 @ data) total (unat psum)
            in Inr (tcp_hdr_mem l f sq ak flg wnd csum @ data)))"

text \<open>The checksum test of \<^verbatim>\<open>tcp_input\<close>: the value it compares with 0, for the bytes
  \<open>data\<close> received from \<open>src\<close> for \<open>dst\<close>.\<close>

definition tcp_input_verify :: "uint8_t list \<Rightarrow> ip_addr_t \<Rightarrow> ip_addr_t \<Rightarrow> uint16_t" where
  "tcp_input_verify data src dst =
     (let pseudo = pseudo_hdr_mem src dst (of_nat (length data));
          psum = NOT (cksum16 pseudo 12 0)
      in cksum16 data (length data) (unat psum))"

text \<open>The first 16 bytes of the header, up to the checksum field.\<close>

definition hdr_prefix ::
  "ip_endpoint \<Rightarrow> ip_endpoint \<Rightarrow> uint32_t \<Rightarrow> uint32_t \<Rightarrow> uint8_t \<Rightarrow> uint16_t \<Rightarrow> uint8_t list" where
  "hdr_prefix l f sq ak flg wnd =
     mem16 (port l) @ mem16 (port f) @ hton32_mem sq @ hton32_mem ak
     @ [push_bit 4 (drop_bit 2 20), flg] @ hton16_mem wnd"


subsection \<open>User commands\<close>

text \<open>A user command runs under the mutex until it returns or parks in \<^verbatim>\<open>sched_sleep\<close>.
  When the parked task is woken, the second half of \<^verbatim>\<open>sched_sleep\<close> runs and the command
  goes back to its retry label with the PCB as the worker left it.\<close>

text \<open>\<^verbatim>\<open>tcp_receive\<close>: \<open>Received r bytes\<close> is a return of \<open>r\<close> with \<open>bytes\<close> copied to the
  caller's buffer; \<open>Receive_parked\<close> is the task parked.\<close>

datatype receive_outcome = Received int "uint8_t list" | Receive_parked

text \<open>\<^verbatim>\<open>remain = sizeof(pcb->buf) - pcb->rcv.wnd\<close>, computed in \<^verbatim>\<open>size_t\<close>: it wraps when
  \<^verbatim>\<open>rcv.wnd\<close> exceeds the buffer size.\<close>

definition receive_remain :: "tcp_pcb \<Rightarrow> nat" where
  "receive_remain pcb = (BUF_SIZE + 2 ^ 64 - unat (rcv_wnd pcb)) mod 2 ^ 64"

text \<open>The copy at the end of \<^verbatim>\<open>tcp_receive\<close>. \<^verbatim>\<open>memcpy\<close> reads \<open>len\<close> bytes and \<^verbatim>\<open>memmove\<close>
  reads up to offset \<open>remain\<close> of the 16-byte buffer.\<close>

definition receive_copy :: "tcp_pcb \<Rightarrow> nat \<Rightarrow> fault + (receive_outcome \<times> tcp_pcb)" where
  "receive_copy pcb sz =
     (let remain = receive_remain pcb; len = min sz remain
      in if remain > BUF_SIZE then Inl BufferOverrun
         else Inr (Received (int len) (take len (buf pcb)),
                   pcb\<lparr>buf := take (remain - len) (drop len (buf pcb))
                                @ drop (remain - len) (buf pcb),
                        rcv_wnd := rcv_wnd pcb + of_nat len\<rparr>))"

text \<open>\<^verbatim>\<open>tcp_receive\<close> from the label \<^verbatim>\<open>RETRY_RECEIVE\<close>.\<close>

definition tcp_receive_retry :: "tcp_pcb \<Rightarrow> nat \<Rightarrow> fault + (receive_outcome \<times> tcp_pcb)" where
  "tcp_receive_retry pcb sz =
     (if state pcb = TCP_PCB_STATE_ESTABLISHED
      then (if receive_remain pcb = 0
            then (case sched_sleep_enter (ctx pcb) of
                    Inl r \<Rightarrow> Inr (Received (-1) [], pcb)
                  | Inr c \<Rightarrow> Inr (Receive_parked, pcb\<lparr>ctx := c\<rparr>))
            else receive_copy pcb sz)
      else if state pcb = TCP_PCB_STATE_CLOSE_WAIT
      then (if receive_remain pcb \<noteq> 0 then receive_copy pcb sz
            else Inr (Received 0 [], pcb))
      else Inr (Received (-1) [], pcb))"

text \<open>The parked \<^verbatim>\<open>tcp_receive\<close> resumed; \<open>ret\<close> is what the wait returned.\<close>

definition tcp_receive_wake :: "tcp_pcb \<Rightarrow> nat \<Rightarrow> int \<Rightarrow> fault + (receive_outcome \<times> tcp_pcb)" where
  "tcp_receive_wake pcb sz ret =
     (let (r, c) = sched_sleep_leave (ctx pcb) ret
      in if r = -1 then Inr (Received (-1) [], pcb\<lparr>ctx := c\<rparr>)
         else tcp_receive_retry (pcb\<lparr>ctx := c\<rparr>) sz)"

definition tcp_receive ::
  "tcp_pcb list \<Rightarrow> int \<Rightarrow> nat \<Rightarrow> fault + (receive_outcome \<times> tcp_pcb list)" where
  "tcp_receive pcbs i sz =
     (case tcp_pcb_get pcbs i of
        None \<Rightarrow> Inr (Received (-1) [], pcbs)
      | Some k \<Rightarrow>
          (case tcp_receive_retry (pcbs ! k) sz of
             Inl e \<Rightarrow> Inl e
           | Inr (out, pcb') \<Rightarrow> Inr (out, pcbs[k := pcb'])))"

text \<open>\<^verbatim>\<open>tcp_send\<close>: \<open>Sent r\<close> is a return of \<open>r\<close>; \<open>Send_parked sent\<close> is the task parked with
  \<open>sent\<close> bytes accepted so far.\<close>

datatype send_outcome = Sent int | Send_parked nat

text \<open>Modelled from the spec: \<^verbatim>\<open>IP_HDR_SIZE_MIN\<close> is declared in ip.h, which is not among the
  sources. The specification has the standard IPv4 header, whose least size is 20 bytes.\<close>

definition IP_HDR_SIZE_MIN :: nat where "IP_HDR_SIZE_MIN = 20"

text \<open>\<^verbatim>\<open>mss = mtu - (IP_HDR_SIZE_MIN + sizeof(struct tcp_hdr))\<close>, computed in \<^verbatim>\<open>size_t\<close>.\<close>

definition send_mss :: "uint16_t \<Rightarrow> nat" where
  "send_mss m = (unat m + 2 ^ 64 - (IP_HDR_SIZE_MIN + 20)) mod 2 ^ 64"

text \<open>\<^verbatim>\<open>cap = snd.wnd - (snd.nxt - snd.una)\<close>, computed in 32 bits without sign.\<close>

definition send_cap :: "tcp_pcb \<Rightarrow> nat" where
  "send_cap pcb = unat (ucast (snd_wnd pcb) - (snd_nxt pcb - snd_una pcb))"

text \<open>The \<^verbatim>\<open>while\<close> loop of \<^verbatim>\<open>tcp_send\<close>. \<open>envs sent\<close> is the environment of the \<^verbatim>\<open>tcp_output\<close>
  call made with \<open>sent\<close> bytes accepted; \<open>evs\<close> collects the events of the call so far. The
  loop need not end: with \<open>mss' = 0\<close> it sends empty segments for ever, and then the result
  is \<open>None\<close>.\<close>

partial_function (option) tcp_send_loop ::
  "(nat \<Rightarrow> env) \<Rightarrow> nat \<Rightarrow> uint8_t list \<Rightarrow> nat \<Rightarrow> tcp_pcb \<Rightarrow> event list
   \<Rightarrow> (send_outcome \<times> tcp_pcb \<times> event list) option" where
  "tcp_send_loop envs mss' data sent pcb evs =
     (if sent < length data
      then (if send_cap pcb = 0
            then (case sched_sleep_enter (ctx pcb) of
                    Inl r \<Rightarrow> Some (if sent = 0 then Sent (-1) else Sent (int sent), pcb, evs)
                  | Inr c \<Rightarrow> Some (Send_parked sent, pcb\<lparr>ctx := c\<rparr>, evs))
            else (let slen = min (min mss' (length data - sent)) (send_cap pcb);
                      out = tcp_output (envs sent) pcb (TCP_FLG_ACK OR TCP_FLG_PSH)
                              (take slen (drop sent data))
                  in if fst out = -1
                     then (let rel = tcp_pcb_release
                                       ((fst (snd out))\<lparr>state := TCP_PCB_STATE_CLOSED\<rparr>)
                           in Some (Sent (-1), fst rel, evs @ snd (snd out) @ snd rel))
                     else tcp_send_loop envs mss' data (sent + slen)
                            ((fst (snd out))\<lparr>snd_nxt := snd_nxt (fst (snd out)) + of_nat slen\<rparr>)
                            (evs @ snd (snd out))))
      else Some (Sent (int sent), pcb, evs))"

text \<open>\<^verbatim>\<open>tcp_send\<close> from the label \<^verbatim>\<open>RETRY\<close>. \<open>route_mtu\<close> stands for
  \<^verbatim>\<open>ip_route_get_iface\<close>: no interface, or the MTU of the device of the one found.\<close>

definition tcp_send_retry ::
  "(ip_addr_t \<Rightarrow> uint16_t option) \<Rightarrow> (nat \<Rightarrow> env) \<Rightarrow> uint8_t list \<Rightarrow> nat \<Rightarrow> tcp_pcb \<Rightarrow> event list
   \<Rightarrow> (send_outcome \<times> tcp_pcb \<times> event list) option" where
  "tcp_send_retry route_mtu envs data sent pcb evs =
     (if state pcb = TCP_PCB_STATE_ESTABLISHED \<or> state pcb = TCP_PCB_STATE_CLOSE_WAIT
      then (case route_mtu (addr (foreign pcb)) of
              None \<Rightarrow> Some (Sent (-1), pcb, evs)
            | Some m \<Rightarrow> tcp_send_loop envs (send_mss m) data sent pcb evs)
      else Some (Sent (-1), pcb, evs))"




subsection \<open>Example connection with one unacknowledged SYN\<close>

definition ex_env :: env where
  "ex_env = \<lparr>gettimeofday = (\<lambda>k. ex_t0), rnd = 7000, mem_ok = True, ip_ok = True\<rparr>"

definition ex_entry :: tcp_queue_entry where
  "ex_entry = \<lparr>e_first = ex_t0, e_last = ex_t0, e_rto = 200000, e_seq = 1000,
               e_flg = 0x02, e_data = []\<rparr>"

definition ex_pcb_syn :: tcp_pcb where
  "ex_pcb_syn = tcp_pcb_zero\<lparr>active := 1, state := TCP_PCB_STATE_SYN_SENT,
     local := ex_local, foreign := ex_foreign, snd_nxt := 1001, snd_una := 1000, iss := 1000,
     rcv_wnd := 16, queue := [ex_entry]\<rparr>"

text \<open>The clock exactly one timeout after the entry was sent, one microsecond later, and
  twelve seconds after the first transmission.\<close>

definition ex_now_eq :: timeval where
  "ex_now_eq = \<lparr>tv_sec = 101, tv_usec = 150000\<rparr>"

definition ex_now_after :: timeval where
  "ex_now_after = \<lparr>tv_sec = 101, tv_usec = 150001\<rparr>"

definition ex_now_dead :: timeval where
  "ex_now_dead = \<lparr>tv_sec = 112, tv_usec = 950000\<rparr>"

subsection \<open>Example segments for an open connection\<close>

text \<open>The opener of \<open>ex_pcb_syn\<close> parked in \<^verbatim>\<open>tcp_open_rfc793\<close>, as it is whenever a segment
  can arrive in SYN_SENT.\<close>

definition ex_pcb_syn_parked :: tcp_pcb where
  "ex_pcb_syn_parked = ex_pcb_syn\<lparr>ctx := \<lparr>interrupted = 0, wc = 1\<rparr>\<rparr>"

text \<open>A bare RST, no ACK.\<close>

definition ex_seg_rst :: tcp_segment_info where
  "ex_seg_rst = \<lparr>seg_seq = 0, seg_ack = 0, seg_len = 0, seg_wnd = 0, seg_up = 0\<rparr>"

text \<open>An established connection with three bytes in flight.\<close>

definition ex_pcb_est :: tcp_pcb where
  "ex_pcb_est = tcp_pcb_zero\<lparr>active := 1, state := TCP_PCB_STATE_ESTABLISHED,
     local := ex_local, foreign := ex_foreign, snd_nxt := 5003, snd_una := 5000,
     snd_wnd := 16, snd_wl1 := 900, snd_wl2 := 5000, iss := 4999,
     rcv_nxt := 1000, rcv_wnd := 16, irs := 999,
     queue := [\<lparr>e_first = ex_t0, e_last = ex_t0, e_rto = 200000, e_seq = 5000,
                e_flg = 0x18, e_data = [1, 2, 3]\<rparr>]\<rparr>"

text \<open>An ACK for those three bytes that also announces a window of 32.\<close>

definition ex_seg_ack :: tcp_segment_info where
  "ex_seg_ack = \<lparr>seg_seq = 1000, seg_ack = 5003, seg_len = 0, seg_wnd = 32, seg_up = 0\<rparr>"

text \<open>A data segment that starts at \<open>rcv.nxt\<close> and carries 17 bytes, one more than the
  window and the buffer hold.\<close>

definition ex_payload17 :: "uint8_t list" where
  "ex_payload17 = [1, 2, 3, 4, 5, 6, 7, 8, 9, 10, 11, 12, 13, 14, 15, 16, 17]"

definition ex_seg_data17 :: tcp_segment_info where
  "ex_seg_data17 = \<lparr>seg_seq = 1000, seg_ack = 5000, seg_len = 17, seg_wnd = 16, seg_up = 0\<rparr>"

text \<open>The same connection with five bytes waiting in the receive buffer, and after the
  peer's FIN with nothing waiting.\<close>

definition ex_pcb_rx :: tcp_pcb where
  "ex_pcb_rx = ex_pcb_est\<lparr>rcv_wnd := 11, buf := [104, 101, 108, 108, 111] @ replicate 11 0\<rparr>"

definition ex_pcb_cw :: tcp_pcb where
  "ex_pcb_cw = ex_pcb_est\<lparr>state := TCP_PCB_STATE_CLOSE_WAIT\<rparr>"

subsection \<open>Example sends\<close>






section \<open>PCB selection: priority of matches\<close>

lemma select_from_none:
  "\<forall>q\<in>set pcbs. \<not> full_match q l f \<and> \<not> listen_match q l \<Longrightarrow>
   tcp_pcb_select_from i pcbs l (Some f) acc = acc"
  by (induction pcbs arbitrary: i acc) (auto simp: full_match_def listen_match_def local_match_def)

lemma select_from_full:
  "\<forall>q\<in>set xs. \<not> full_match q l f \<Longrightarrow> full_match p l f \<Longrightarrow>
   tcp_pcb_select_from i (xs @ p # ys) l (Some f) acc = Some (i + length xs)"
  by (induction xs arbitrary: i acc) (auto simp: full_match_def local_match_def)

lemma select_from_append:
  "\<forall>q\<in>set xs. \<not> full_match q l f \<Longrightarrow>
   tcp_pcb_select_from i (xs @ zs) l (Some f) acc =
   tcp_pcb_select_from (i + length xs) zs l (Some f) (tcp_pcb_select_from i xs l (Some f) acc)"
  by (induction xs arbitrary: i acc) (auto simp: full_match_def local_match_def)

lemma select_from_listen:
  assumes "\<forall>q\<in>set xs. \<not> full_match q l f" "\<not> full_match p l f" "\<forall>q\<in>set ys. \<not> full_match q l f"
    and "listen_match p l" "\<forall>q\<in>set ys. \<not> listen_match q l"
  shows "tcp_pcb_select_from i (xs @ p # ys) l (Some f) acc = Some (i + length xs)"
proof -
  have "tcp_pcb_select_from (Suc (i + length xs)) ys l (Some f) (Some (i + length xs)) = Some (i + length xs)"
    using assms(3,5) by (intro select_from_none) auto
  then show ?thesis
    using assms(1,2,4) by (simp add: select_from_append full_match_def listen_match_def local_match_def)
qed

text \<open>C2 (amended). For a lookup with a foreign endpoint: the first PCB in table order
  whose local and foreign endpoints both match is returned when there is one; otherwise the
  LISTEN PCB with matching local endpoint and wildcard foreign that comes \<^emph>\<open>last\<close> in table
  order; otherwise no PCB.\<close>

theorem tcp_pcb_select_priority:
  "(\<forall>i<length pcbs.
      full_match (pcbs ! i) l f \<and> (\<forall>j<i. \<not> full_match (pcbs ! j) l f)
      \<longrightarrow> tcp_pcb_select pcbs l (Some f) = Some i)
   \<and> (\<forall>i<length pcbs.
      (\<forall>j<length pcbs. \<not> full_match (pcbs ! j) l f)
      \<and> listen_match (pcbs ! i) l
      \<and> (\<forall>j<length pcbs. i < j \<longrightarrow> \<not> listen_match (pcbs ! j) l)
      \<longrightarrow> tcp_pcb_select pcbs l (Some f) = Some i)
   \<and> ((\<forall>j<length pcbs. \<not> full_match (pcbs ! j) l f \<and> \<not> listen_match (pcbs ! j) l)
      \<longrightarrow> tcp_pcb_select pcbs l (Some f) = None)"
proof (intro conjI allI impI)
  fix i assume i: "i < length pcbs"
    and h: "full_match (pcbs ! i) l f \<and> (\<forall>j<i. \<not> full_match (pcbs ! j) l f)"
  have split: "pcbs = take i pcbs @ pcbs ! i # drop (Suc i) pcbs"
    using i by (rule id_take_nth_drop)
  have "\<forall>q\<in>set (take i pcbs). \<not> full_match q l f"
    using h i by (auto simp: in_set_conv_nth)
  then have "tcp_pcb_select_from 0 (take i pcbs @ pcbs ! i # drop (Suc i) pcbs) l (Some f) None
             = Some (0 + length (take i pcbs))"
    using h by (intro select_from_full) auto
  then show "tcp_pcb_select pcbs l (Some f) = Some i"
    using split i by (simp add: tcp_pcb_select_def)
next
  fix i assume i: "i < length pcbs"
    and h: "(\<forall>j<length pcbs. \<not> full_match (pcbs ! j) l f)
      \<and> listen_match (pcbs ! i) l
      \<and> (\<forall>j<length pcbs. i < j \<longrightarrow> \<not> listen_match (pcbs ! j) l)"
  have split: "pcbs = take i pcbs @ pcbs ! i # drop (Suc i) pcbs"
    using i by (rule id_take_nth_drop)
  have nofull: "\<forall>q\<in>set pcbs. \<not> full_match q l f"
    using h by (auto simp: in_set_conv_nth)
  have a: "\<forall>q\<in>set (take i pcbs). \<not> full_match q l f"
    using nofull by (auto dest: in_set_takeD)
  have b: "\<forall>q\<in>set (drop (Suc i) pcbs). \<not> full_match q l f"
    using nofull by (auto dest: in_set_dropD)
  have c: "\<forall>q\<in>set (drop (Suc i) pcbs). \<not> listen_match q l"
    using h i by (auto simp: in_set_conv_nth)
  have "tcp_pcb_select_from 0 (take i pcbs @ pcbs ! i # drop (Suc i) pcbs) l (Some f) None
             = Some (0 + length (take i pcbs))"
    using a b c h i by (intro select_from_listen) auto
  then show "tcp_pcb_select pcbs l (Some f) = Some i"
    using split i by (simp add: tcp_pcb_select_def)
next
  assume "\<forall>j<length pcbs. \<not> full_match (pcbs ! j) l f \<and> \<not> listen_match (pcbs ! j) l"
  then have "\<forall>q\<in>set pcbs. \<not> full_match q l f \<and> \<not> listen_match q l"
    by (auto simp: in_set_conv_nth)
  then show "tcp_pcb_select pcbs l (Some f) = None"
    unfolding tcp_pcb_select_def by (rule select_from_none)
qed

lemmas ex_select_defs = ex_listen_a_def ex_listen_b_def ex_conn_def ex_local_def ex_foreign_def
  tcp_pcb_zero_def ip_endpoint_zero_def IP_ADDR_ANY_def full_match_def listen_match_def
  local_match_def

text \<open>C2 as stated fails: with two LISTEN PCBs that both match and no full match, the
  lookup returns slot 1, the later one, not slot 0.\<close>

theorem tcp_pcb_select_first_listen_counterexample:
  "listen_match ex_listen_a ex_local \<and> listen_match ex_listen_b ex_local
   \<and> \<not> full_match ex_listen_a ex_local ex_foreign
   \<and> \<not> full_match ex_listen_b ex_local ex_foreign
   \<and> tcp_pcb_select [ex_listen_a, ex_listen_b] ex_local (Some ex_foreign) = Some 1
   \<and> tcp_pcb_select [ex_listen_a, ex_listen_b] ex_local (Some ex_foreign) \<noteq> Some 0"
  by (simp add: ex_select_defs tcp_pcb_select_def)

theorem tcp_pcb_select_priority_witness:
  "(full_match ex_conn ex_local ex_foreign \<and> \<not> full_match ex_listen_a ex_local ex_foreign
      \<and> tcp_pcb_select [ex_listen_a, ex_conn] ex_local (Some ex_foreign) = Some 1)
   \<and> (listen_match ex_listen_b ex_local \<and> \<not> full_match ex_listen_a ex_local ex_foreign
      \<and> \<not> full_match ex_listen_b ex_local ex_foreign
      \<and> tcp_pcb_select [ex_listen_a, ex_listen_b] ex_local (Some ex_foreign) = Some 1)
   \<and> (\<not> full_match tcp_pcb_zero ex_local ex_foreign \<and> \<not> listen_match tcp_pcb_zero ex_local
      \<and> tcp_pcb_select [tcp_pcb_zero] ex_local (Some ex_foreign) = None)"
proof -
  have f: "full_match ex_conn ex_local ex_foreign" "\<not> full_match ex_listen_a ex_local ex_foreign"
    "\<not> full_match ex_listen_b ex_local ex_foreign" "\<not> full_match tcp_pcb_zero ex_local ex_foreign"
    by (simp_all add: ex_select_defs)
  have l: "listen_match ex_listen_b ex_local" "\<not> listen_match tcp_pcb_zero ex_local"
    by (simp_all add: ex_select_defs)
  have 1: "tcp_pcb_select [ex_listen_a, ex_conn] ex_local (Some ex_foreign) = Some 1"
    using tcp_pcb_select_priority [of "[ex_listen_a, ex_conn]" ex_local ex_foreign] f
    by (simp add: less_Suc_eq)
  have 2: "tcp_pcb_select [ex_listen_a, ex_listen_b] ex_local (Some ex_foreign) = Some 1"
    using tcp_pcb_select_priority [of "[ex_listen_a, ex_listen_b]" ex_local ex_foreign] f l
    by (simp add: less_Suc_eq)
  have 3: "tcp_pcb_select [tcp_pcb_zero] ex_local (Some ex_foreign) = None"
    using tcp_pcb_select_priority [of "[tcp_pcb_zero]" ex_local ex_foreign] f l
    by simp
  show ?thesis using f l 1 2 3 by simp
qed


section \<open>Timer tick\<close>

lemma register_all_foldl:
  "foldl (\<lambda>timers (iv, h, now). snd (net_timer_register True iv h now timers)) acc regs
   = rev (map (\<lambda>(iv, h, now). \<lparr>interval = iv, t_last = now, handler = h\<rparr>) regs) @ acc"
  by (induction regs arbitrary: acc) (auto simp: net_timer_register_def)

lemma register_all_rev:
  "register_all regs = rev (map (\<lambda>(iv, h, now). \<lparr>interval = iv, t_last = now, handler = h\<rparr>) regs)"
  by (simp add: register_all_def register_all_foldl)

lemma handler_from_calls:
  "snd (net_timer_handler_from k clk ts)
   = map (handler \<circ> snd) (filter (\<lambda>(j, t). fires (clk j) t) (enumerate k ts))"
  by (induction ts arbitrary: k) (simp_all add: fires_def Let_def split_beta)

lemma handler_from_timers:
  "fst (net_timer_handler_from k clk ts)
   = map (\<lambda>(j, t). if fires (clk j) t then t\<lparr>t_last := clk j\<rparr> else t) (enumerate k ts)"
  by (induction ts arbitrary: k) (simp_all add: fires_def Let_def split_beta)

lemma fires_usecs:
  "normalized now \<Longrightarrow> normalized (t_last t) \<Longrightarrow> normalized (interval t) \<Longrightarrow>
   fires now t \<longleftrightarrow> usecs (interval t) < usecs now - usecs (t_last t)"
  by (auto simp: fires_def normalized_def usecs_def timersub_def timercmp_lt_def Let_def)

text \<open>C7 (amended). On a tick, exactly the timers whose interval is strictly less than
  the time elapsed since their last firing (\<^verbatim>\<open>timercmp\<close> with \<^verbatim>\<open><\<close>) have their handler
  called and their last-fired time set to the current time; the list is walked from its
  head, and since registration pushes at the head, that is the reverse of the registration
  order. For well-formed time values the test is
  \<open>interval < now - last\<close> in microseconds.\<close>

theorem net_timer_handler_serves:
  "snd (net_timer_handler clk (register_all regs))
     = map (handler \<circ> snd) (filter (\<lambda>(k, t). fires (clk k) t) (enumerate 0 (register_all regs)))
   \<and> fst (net_timer_handler clk (register_all regs))
     = map (\<lambda>(k, t). if fires (clk k) t then t\<lparr>t_last := clk k\<rparr> else t)
         (enumerate 0 (register_all regs))
   \<and> register_all regs
     = rev (map (\<lambda>(iv, h, t0). \<lparr>interval = iv, t_last = t0, handler = h\<rparr>) regs)
   \<and> (\<forall>now t. normalized now \<and> normalized (t_last t) \<and> normalized (interval t) \<longrightarrow>
        (fires now (t :: 'h net_timer) \<longleftrightarrow> usecs (interval t) < usecs now - usecs (t_last t)))"
  by (simp add: net_timer_handler_def handler_from_calls handler_from_timers fires_usecs
      register_all_rev [symmetric])

lemmas ex_time_defs = ex_t0_def ex_iv_def ex_t_eq_def ex_t_after_def

lemma ex_reg_all: "register_all ex_regs = [\<lparr>interval = ex_iv, t_last = ex_t0, handler = 2\<rparr>, \<lparr>interval = ex_iv, t_last = ex_t0, handler = 1\<rparr>]"
  by (simp add: register_all_def ex_regs_def net_timer_register_def)

text \<open>C7 as stated fails twice: two eligible timers registered as 1 then 2 are served as
  2 then 1, and a timer whose elapsed time equals its interval is not served.\<close>

theorem net_timer_handler_counterexample:
  "snd (net_timer_handler (\<lambda>k. ex_t_after) (register_all ex_regs)) = [2, 1]
   \<and> usecs ex_t_eq - usecs ex_t0 = usecs ex_iv
   \<and> snd (net_timer_handler (\<lambda>k. ex_t_eq) (register_all ex_regs)) = []"
  by (simp add: ex_reg_all net_timer_handler_def Let_def timersub_def timercmp_lt_def usecs_def ex_time_defs)

theorem net_timer_handler_serves_witness:
  "snd (net_timer_handler (\<lambda>k. ex_t_after) (register_all ex_regs)) = [2, 1]
   \<and> map t_last (fst (net_timer_handler (\<lambda>k. ex_t_after) (register_all ex_regs)))
       = [ex_t_after, ex_t_after]
   \<and> normalized ex_t_after \<and> normalized ex_t0 \<and> normalized ex_iv
   \<and> fires ex_t_after \<lparr>interval = ex_iv, t_last = ex_t0, handler = (1::nat)\<rparr>"
proof -
  note T = net_timer_handler_serves [of "\<lambda>k. ex_t_after" ex_regs]
  have n: "normalized ex_t_after" "normalized ex_t0" "normalized ex_iv"
    by (simp_all add: normalized_def ex_time_defs)
  have f: "fires ex_t_after \<lparr>interval = ex_iv, t_last = ex_t0, handler = h\<rparr>" for h :: nat
    using T [THEN conjunct2, THEN conjunct2, THEN conjunct2, rule_format,
        of ex_t_after "\<lparr>interval = ex_iv, t_last = ex_t0, handler = h\<rparr>"] n
    by (simp add: usecs_def ex_time_defs)
  have "snd (net_timer_handler (\<lambda>k. ex_t_after) (register_all ex_regs))
        = map (handler \<circ> snd) (filter (\<lambda>(k, t). fires ex_t_after t) (enumerate 0 (register_all ex_regs)))"
    by (rule T [THEN conjunct1])
  also have "\<dots> = [2, 1]"
    by (simp add: ex_reg_all f)
  finally have c: "snd (net_timer_handler (\<lambda>k. ex_t_after) (register_all ex_regs)) = [2, 1]" .
  have "fst (net_timer_handler (\<lambda>k. ex_t_after) (register_all ex_regs))
        = map (\<lambda>(k, t). if fires ex_t_after t then t\<lparr>t_last := ex_t_after\<rparr> else t)
            (enumerate 0 (register_all ex_regs))"
    by (rule T [THEN conjunct2, THEN conjunct1])
  then have l: "map t_last (fst (net_timer_handler (\<lambda>k. ex_t_after) (register_all ex_regs)))
       = [ex_t_after, ex_t_after]"
    by (simp add: ex_reg_all f)
  show ?thesis using c l n f by simp
qed

section \<open>Interrupting a scheduling context\<close>

lemma sched_run_latched:
  "interrupted c \<noteq> 0 \<Longrightarrow> wc c = int m \<Longrightarrow> returns_in steps < m \<or> returns_in steps = 0 \<Longrightarrow>
   snd (sched_run steps c) = replicate (length steps) (-1)
   \<and> interrupted (fst (sched_run steps c)) = interrupted c
   \<and> wc (fst (sched_run steps c)) = int m - int (returns_in steps)"
proof (induction steps arbitrary: c m)
  case Nil
  then show ?case by (simp add: returns_in_def)
next
  case (Cons s steps)
  show ?case
  proof (cases s)
    case Call
    have "returns_in steps < m \<or> returns_in steps = 0"
      using Cons.prems(3) Call by (simp add: returns_in_def)
    from Cons.IH [OF Cons.prems(1) Cons.prems(2) this] show ?thesis
      using Call Cons.prems(1) by (simp add: sched_sleep_enter_def returns_in_def split_beta)
  next
    case (Return ret)
    have k: "Suc (returns_in steps) < m"
      using Cons.prems(3) Return by (simp add: returns_in_def)
    define c1 where "c1 = c\<lparr>wc := wc c - 1\<rparr>"
    have leave: "sched_sleep_leave c ret = (-1, c1)"
      using Cons.prems(1,2) k by (simp add: sched_sleep_leave_def c1_def Let_def)
    have "interrupted c1 \<noteq> 0" "wc c1 = int (m - 1)" "returns_in steps < m - 1 \<or> returns_in steps = 0"
      using Cons.prems(1,2) k by (auto simp: c1_def)
    from Cons.IH [OF this] show ?thesis
      using Return leave k by (simp add: returns_in_def split_beta c1_def)
  qed
qed

text \<open>C8. Let \<open>n\<close> tasks be parked in \<^verbatim>\<open>sched_sleep\<close> when \<^verbatim>\<open>sched_interrupt\<close> is called.
  The call sets the latch and broadcasts on the condition variable. In every schedule that
  follows, as long as fewer than \<open>n\<close> parkers have come back, every step (a parker coming
  back, or a task calling \<^verbatim>\<open>sched_sleep\<close> afresh) ends with -1, the value reported as
  INTERRUPTED, once per step, and the latch stays set; the return of the last parker also
  yields -1 and is the one that clears the latch. With no parker the latch stays set.\<close>

theorem sched_interrupt_parkers:
  assumes "wc c = int n" and "returns_in steps < n \<or> returns_in steps = 0"
  shows "snd (sched_interrupt c) = [Broadcast]
    \<and> interrupted (fst (sched_interrupt c)) \<noteq> 0
    \<and> snd (sched_run steps (fst (sched_interrupt c))) = replicate (length steps) (-1)
    \<and> interrupted (fst (sched_run steps (fst (sched_interrupt c)))) \<noteq> 0
    \<and> wc (fst (sched_run steps (fst (sched_interrupt c)))) = int n - int (returns_in steps)
    \<and> (Suc (returns_in steps) = n \<longrightarrow>
         (\<forall>ret. fst (sched_sleep_leave (fst (sched_run steps (fst (sched_interrupt c)))) ret) = -1
            \<and> interrupted (snd (sched_sleep_leave (fst (sched_run steps (fst (sched_interrupt c)))) ret)) = 0
            \<and> wc (snd (sched_sleep_leave (fst (sched_run steps (fst (sched_interrupt c)))) ret)) = 0))"
proof -
  define c1 where "c1 = fst (sched_interrupt c)"
  have c1: "interrupted c1 \<noteq> 0" "wc c1 = int n"
    using assms(1) by (simp_all add: c1_def sched_interrupt_def)
  note L = sched_run_latched [OF c1 assms(2)]
  define c2 where "c2 = fst (sched_run steps c1)"
  have c2: "interrupted c2 \<noteq> 0" "wc c2 = int n - int (returns_in steps)"
    using L c1 by (simp_all add: c2_def)
  have last: "Suc (returns_in steps) = n \<longrightarrow>
         (\<forall>ret. fst (sched_sleep_leave c2 ret) = -1
            \<and> interrupted (snd (sched_sleep_leave c2 ret)) = 0
            \<and> wc (snd (sched_sleep_leave c2 ret)) = 0)"
    using c2 by (auto simp: sched_sleep_leave_def Let_def)
  show ?thesis
    using L c1 c2 last unfolding c2_def c1_def by (simp add: sched_interrupt_def)
qed

theorem sched_interrupt_parkers_witness:
  "wc \<lparr>interrupted = 0, wc = 2\<rparr> = int 2 \<and> returns_in [Return 0, Call] < 2
   \<and> sched_run [Return 0, Call] (fst (sched_interrupt \<lparr>interrupted = 0, wc = 2\<rparr>))
       = (\<lparr>interrupted = 1, wc = 1\<rparr>, [-1, -1])
   \<and> sched_sleep_leave \<lparr>interrupted = 1, wc = 1\<rparr> 0 = (-1, \<lparr>interrupted = 0, wc = 0\<rparr>)"
proof -
  have h: "wc \<lparr>interrupted = 0, wc = 2\<rparr> = int 2" "returns_in [Return 0, Call] < 2"
    by (simp_all add: returns_in_def)
  have r: "sched_run [Return 0, Call] (fst (sched_interrupt \<lparr>interrupted = 0, wc = 2\<rparr>))
       = (\<lparr>interrupted = 1, wc = 1\<rparr>, [-1, -1])"
    by (simp add: sched_interrupt_def sched_sleep_leave_def sched_sleep_enter_def)
  have "Suc (returns_in [Return 0, Call]) = 2" by (simp add: returns_in_def)
  with sched_interrupt_parkers [OF h(1) disjI1 [OF h(2)]] r
  have "fst (sched_sleep_leave \<lparr>interrupted = 1, wc = 1\<rparr> 0) = -1
     \<and> interrupted (snd (sched_sleep_leave \<lparr>interrupted = 1, wc = 1\<rparr> 0)) = 0
     \<and> wc (snd (sched_sleep_leave \<lparr>interrupted = 1, wc = 1\<rparr> 0)) = 0"
    by simp
  then have "sched_sleep_leave \<lparr>interrupted = 1, wc = 1\<rparr> 0 = (-1, \<lparr>interrupted = 0, wc = 0\<rparr>)"
    by (cases "sched_sleep_leave \<lparr>interrupted = 1, wc = 1\<rparr> 0") auto
  with h r show ?thesis by simp
qed


section \<open>Retransmit tick\<close>

text \<open>The two tests of one entry.\<close>

lemma deadline_usecs:
  "normalized now \<Longrightarrow> normalized a \<Longrightarrow>
   tv_sec (timersub now a) \<ge> TCP_RETRANSMIT_DEADLINE \<longleftrightarrow> usecs now - usecs a \<ge> 12000000"
  by (auto simp: normalized_def timersub_def usecs_def Let_def TCP_RETRANSMIT_DEADLINE_def)

lemma normalized_add_usec: "normalized a \<Longrightarrow> normalized (timeval_add_usec a n)"
  by (auto simp: normalized_def timeval_add_usec_def Let_def)

lemma usecs_add_usec: "usecs (timeval_add_usec a n) = usecs a + int n"
proof -
  have "int n = int (n div 1000000) * 1000000 + int (n mod 1000000)"
    by (simp add: zdiv_int zmod_int)
  then show ?thesis
    by (auto simp: usecs_def timeval_add_usec_def Let_def)
qed

lemma timercmp_gt_usecs:
  "normalized a \<Longrightarrow> normalized b \<Longrightarrow> timercmp_gt a b \<longleftrightarrow> usecs a > usecs b"
  by (auto simp: normalized_def timercmp_gt_def usecs_def)

lemma resend_usecs:
  "normalized now \<Longrightarrow> normalized a \<Longrightarrow>
   timercmp_gt now (timeval_add_usec a n) \<longleftrightarrow> usecs now > usecs a + int n"
  by (simp add: timercmp_gt_usecs normalized_add_usec usecs_add_usec)

lemma emit_state_indep:
  "fst (snd (tcp_retransmit_queue_emit ev now (pcb\<lparr>state := s\<rparr>) e))
     = fst (snd (tcp_retransmit_queue_emit ev now pcb e))
   \<and> snd (snd (tcp_retransmit_queue_emit ev now (pcb\<lparr>state := s\<rparr>) e))
     = snd (snd (tcp_retransmit_queue_emit ev now pcb e))"
  by (simp add: tcp_retransmit_queue_emit_def Let_def tcp_output_segment_def sched_wakeup_def)


lemma emit_pcb:
  "fst (tcp_retransmit_queue_emit ev now pcb e)
   = (if expired now e then pcb\<lparr>state := TCP_PCB_STATE_CLOSED\<rparr> else pcb)"
  by (simp add: tcp_retransmit_queue_emit_def Let_def sched_wakeup_def expired_def)

lemma emit_from_entries:
  "fst (snd (emit_from ev clk k pcb es))
   = map (\<lambda>(j, e). fst (snd (tcp_retransmit_queue_emit ev (clk j) pcb e))) (enumerate k es)"
proof (induction es arbitrary: k pcb)
  case Nil
  show ?case by simp
next
  case (Cons e es)
  show ?case
    by (simp add: split_beta Cons.IH emit_pcb emit_state_indep)
qed

lemma emit_from_events:
  "snd (snd (emit_from ev clk k pcb es))
   = concat (map (\<lambda>(j, e). snd (snd (tcp_retransmit_queue_emit ev (clk j) pcb e))) (enumerate k es))"
proof (induction es arbitrary: k pcb)
  case Nil
  show ?case by simp
next
  case (Cons e es)
  show ?case
    by (simp add: split_beta Cons.IH emit_pcb emit_state_indep)
qed

lemma emit_from_pcb:
  "fst (emit_from ev clk k pcb es)
   = (if \<exists>(j, e) \<in> set (enumerate k es). expired (clk j) e
      then pcb\<lparr>state := TCP_PCB_STATE_CLOSED\<rparr> else pcb)"
proof (induction es arbitrary: k pcb)
  case Nil
  show ?case by simp
next
  case (Cons e es)
  show ?case
    by (simp add: split_beta Cons.IH emit_pcb)
qed

lemma emit_all_queue:
  "queue (fst (tcp_retransmit_queue_emit_all ev clk pcb))
   = map (\<lambda>(j, e). fst (snd (tcp_retransmit_queue_emit ev (clk j) pcb e))) (enumerate 0 (queue pcb))"
  by (simp add: tcp_retransmit_queue_emit_all_def split_beta emit_from_entries)

lemma emit_all_state:
  "state (fst (tcp_retransmit_queue_emit_all ev clk pcb))
   = (if \<exists>(j, e) \<in> set (enumerate 0 (queue pcb)). expired (clk j) e
      then TCP_PCB_STATE_CLOSED else state pcb)"
  by (simp add: tcp_retransmit_queue_emit_all_def split_beta emit_from_pcb)

lemma emit_all_events:
  "snd (tcp_retransmit_queue_emit_all ev clk pcb)
   = concat (map (\<lambda>(j, e). snd (snd (tcp_retransmit_queue_emit ev (clk j) pcb e)))
       (enumerate 0 (queue pcb)))"
  by (simp add: tcp_retransmit_queue_emit_all_def split_beta emit_from_events)

lemma timer_from_pcbs:
  "fst (retransmit_timer_from ev clk i0 pcbs)
   = map (\<lambda>(i, p). if state p = TCP_PCB_STATE_FREE then p
                    else fst (tcp_retransmit_queue_emit_all ev (clk i) p)) (enumerate i0 pcbs)"
  by (induction pcbs arbitrary: i0) (simp_all add: split_beta)

lemma timer_from_events:
  "snd (retransmit_timer_from ev clk i0 pcbs)
   = concat (map (\<lambda>(i, p). if state p = TCP_PCB_STATE_FREE then []
                    else map (Pair i) (snd (tcp_retransmit_queue_emit_all ev (clk i) p)))
       (enumerate i0 pcbs))"
  by (induction pcbs arbitrary: i0) (simp_all add: split_beta)

lemma timer_event_mem:
  assumes "i < length pcbs" "state (pcbs ! i) \<noteq> TCP_PCB_STATE_FREE" "k < length (queue (pcbs ! i))"
    and "x \<in> set (snd (snd (tcp_retransmit_queue_emit ev (clk i k) (pcbs ! i) (queue (pcbs ! i) ! k))))"
  shows "(i, x) \<in> set (snd (tcp_retransmit_timer ev clk pcbs))"
proof -
  have "(k, queue (pcbs ! i) ! k) \<in> set (enumerate 0 (queue (pcbs ! i)))"
    using assms(3) by (simp add: in_set_enumerate_eq)
  then have "x \<in> set (snd (tcp_retransmit_queue_emit_all ev (clk i) (pcbs ! i)))"
    using assms(4) by (fastforce simp: emit_all_events)
  moreover have "(i, pcbs ! i) \<in> set (enumerate 0 pcbs)"
    using assms(1) by (simp add: in_set_enumerate_eq)
  ultimately show ?thesis
    using assms(2) by (fastforce simp: tcp_retransmit_timer_def timer_from_events)
qed

lemma timer_pcb_nth:
  assumes "i < length pcbs" "state (pcbs ! i) \<noteq> TCP_PCB_STATE_FREE"
  shows "fst (tcp_retransmit_timer ev clk pcbs) ! i
         = fst (tcp_retransmit_queue_emit_all ev (clk i) (pcbs ! i))"
  using assms by (simp add: tcp_retransmit_timer_def timer_from_pcbs nth_enumerate_eq)

lemma timer_entry_nth:
  assumes "i < length pcbs" "state (pcbs ! i) \<noteq> TCP_PCB_STATE_FREE" "k < length (queue (pcbs ! i))"
  shows "queue (fst (tcp_retransmit_timer ev clk pcbs) ! i) ! k
         = fst (snd (tcp_retransmit_queue_emit ev (clk i k) (pcbs ! i) (queue (pcbs ! i) ! k)))"
  using assms by (simp add: timer_pcb_nth emit_all_queue nth_enumerate_eq)

lemma timer_state_closed:
  assumes "i < length pcbs" "state (pcbs ! i) \<noteq> TCP_PCB_STATE_FREE" "k < length (queue (pcbs ! i))"
    and "expired (clk i k) (queue (pcbs ! i) ! k)"
  shows "state (fst (tcp_retransmit_timer ev clk pcbs) ! i) = TCP_PCB_STATE_CLOSED"
proof -
  have "(k, queue (pcbs ! i) ! k) \<in> set (enumerate 0 (queue (pcbs ! i)))"
    using assms(3) by (simp add: in_set_enumerate_eq)
  then have "\<exists>(j, e) \<in> set (enumerate 0 (queue (pcbs ! i))). expired (clk i j) e"
    using assms(4) by blast
  then show ?thesis
    using assms(1,2) by (simp add: timer_pcb_nth emit_all_state)
qed

lemma rto_doubles:
  assumes "usecs now - usecs a < 12000000" "usecs b + int (unat (r :: uint32_t)) < usecs now"
    "usecs a \<le> usecs b"
  shows "unat (r * 2) = 2 * unat r"
proof -
  have "int (unat r) < 12000000" using assms by linarith
  then have "unat r < 12000000" by linarith
  then have "unat r * 2 < 2 ^ 32" by simp
  then show ?thesis
    by (simp add: unat_word_ariths)
qed

text \<open>C3 (amended). On a retransmit tick, for every PCB that is not FREE and every entry
  of its retransmission queue, with \<open>now\<close> the clock read for that entry: if \<open>now\<close> minus the
  first-send time is at least 12 seconds, the PCB's state is set to CLOSED and a wake-up is
  broadcast, the entry being left as it is; otherwise, if \<open>now\<close> is strictly later than the
  last-send time plus the timeout, the segment is sent again with the PCB's current
  \<open>rcv.nxt\<close> and \<open>rcv.wnd\<close>, the last-send time becomes \<open>now\<close> and the timeout is doubled
  (exactly, when the entry was not last sent before it was first sent); otherwise the
  entry is left as it is.\<close>

theorem tcp_retransmit_timer_entry:
  assumes "i < length pcbs" and "state (pcbs ! i) \<noteq> TCP_PCB_STATE_FREE"
    and "k < length (queue (pcbs ! i))"
    and "normalized (clk i k)" and "normalized (e_first (queue (pcbs ! i) ! k))"
    and "normalized (e_last (queue (pcbs ! i) ! k))"
  shows
   "(let p = pcbs ! i; e = queue p ! k; now = clk i k;
         p' = fst (tcp_retransmit_timer ev clk pcbs) ! i;
         evs = snd (tcp_retransmit_timer ev clk pcbs)
     in (12000000 \<le> usecs now - usecs (e_first e) \<longrightarrow>
           state p' = TCP_PCB_STATE_CLOSED \<and> (i, Broadcast) \<in> set evs \<and> queue p' ! k = e)
      \<and> (usecs now - usecs (e_first e) < 12000000
           \<and> usecs (e_last e) + int (unat (e_rto e)) < usecs now \<longrightarrow>
           queue p' ! k = e\<lparr>e_last := now, e_rto := e_rto e * 2\<rparr>
           \<and> (i, Segment (e_seq e) (rcv_nxt p) (e_flg e) (rcv_wnd p) (e_data e) (local p) (foreign p))
               \<in> set evs
           \<and> (usecs (e_first e) \<le> usecs (e_last e) \<longrightarrow> unat (e_rto e * 2) = 2 * unat (e_rto e)))
      \<and> (usecs now - usecs (e_first e) < 12000000
           \<and> usecs now \<le> usecs (e_last e) + int (unat (e_rto e)) \<longrightarrow>
           queue p' ! k = e))"
proof -
  define p where "p = pcbs ! i"
  define e where "e = queue p ! k"
  define now where "now = clk i k"
  have d: "tv_sec (timersub now (e_first e)) \<ge> TCP_RETRANSMIT_DEADLINE
           \<longleftrightarrow> usecs now - usecs (e_first e) \<ge> 12000000"
    using assms(4,5) unfolding now_def e_def p_def by (rule deadline_usecs)
  have r: "timercmp_gt now (timeval_add_usec (e_last e) (unat (e_rto e)))
           \<longleftrightarrow> usecs now > usecs (e_last e) + int (unat (e_rto e))"
    using assms(4,6) unfolding now_def e_def p_def by (rule resend_usecs)
  have entry: "queue (fst (tcp_retransmit_timer ev clk pcbs) ! i) ! k
         = fst (snd (tcp_retransmit_queue_emit ev now p e))"
    unfolding now_def e_def p_def using assms(1-3) by (rule timer_entry_nth)
  have mem: "x \<in> set (snd (snd (tcp_retransmit_queue_emit ev now p e)))
        \<Longrightarrow> (i, x) \<in> set (snd (tcp_retransmit_timer ev clk pcbs))" for x
    unfolding now_def e_def p_def using assms(1-3) by (rule timer_event_mem)
  have closed: "expired now e \<Longrightarrow> state (fst (tcp_retransmit_timer ev clk pcbs) ! i) = TCP_PCB_STATE_CLOSED"
    unfolding now_def e_def p_def using assms(1-3) by (rule timer_state_closed)
  have A: "12000000 \<le> usecs now - usecs (e_first e) \<longrightarrow>
           state (fst (tcp_retransmit_timer ev clk pcbs) ! i) = TCP_PCB_STATE_CLOSED
           \<and> (i, Broadcast) \<in> set (snd (tcp_retransmit_timer ev clk pcbs))
           \<and> queue (fst (tcp_retransmit_timer ev clk pcbs) ! i) ! k = e"
  proof
    assume h: "12000000 \<le> usecs now - usecs (e_first e)"
    then have x: "expired now e" using d by (simp add: expired_def)
    have "Broadcast \<in> set (snd (snd (tcp_retransmit_queue_emit ev now p e)))"
      using h d by (simp add: tcp_retransmit_queue_emit_def Let_def sched_wakeup_def)
    then have "(i, Broadcast) \<in> set (snd (tcp_retransmit_timer ev clk pcbs))" by (rule mem)
    moreover have "fst (snd (tcp_retransmit_queue_emit ev now p e)) = e"
      using h d by (simp add: tcp_retransmit_queue_emit_def Let_def)
    ultimately show "state (fst (tcp_retransmit_timer ev clk pcbs) ! i) = TCP_PCB_STATE_CLOSED
           \<and> (i, Broadcast) \<in> set (snd (tcp_retransmit_timer ev clk pcbs))
           \<and> queue (fst (tcp_retransmit_timer ev clk pcbs) ! i) ! k = e"
      using closed [OF x] entry by simp
  qed
  have B: "usecs now - usecs (e_first e) < 12000000
           \<and> usecs (e_last e) + int (unat (e_rto e)) < usecs now \<longrightarrow>
           queue (fst (tcp_retransmit_timer ev clk pcbs) ! i) ! k = e\<lparr>e_last := now, e_rto := e_rto e * 2\<rparr>
           \<and> (i, Segment (e_seq e) (rcv_nxt p) (e_flg e) (rcv_wnd p) (e_data e) (local p) (foreign p))
               \<in> set (snd (tcp_retransmit_timer ev clk pcbs))
           \<and> (usecs (e_first e) \<le> usecs (e_last e) \<longrightarrow> unat (e_rto e * 2) = 2 * unat (e_rto e))"
  proof
    assume h: "usecs now - usecs (e_first e) < 12000000
           \<and> usecs (e_last e) + int (unat (e_rto e)) < usecs now"
    then have nd: "\<not> tv_sec (timersub now (e_first e)) \<ge> TCP_RETRANSMIT_DEADLINE" using d by simp
    have "Segment (e_seq e) (rcv_nxt p) (e_flg e) (rcv_wnd p) (e_data e) (local p) (foreign p)
            \<in> set (snd (snd (tcp_retransmit_queue_emit ev now p e)))"
      using h nd r by (simp add: tcp_retransmit_queue_emit_def Let_def tcp_output_segment_def)
    then have "(i, Segment (e_seq e) (rcv_nxt p) (e_flg e) (rcv_wnd p) (e_data e) (local p) (foreign p))
               \<in> set (snd (tcp_retransmit_timer ev clk pcbs))" by (rule mem)
    moreover have "fst (snd (tcp_retransmit_queue_emit ev now p e)) = e\<lparr>e_last := now, e_rto := e_rto e * 2\<rparr>"
      using h nd r by (simp add: tcp_retransmit_queue_emit_def Let_def)
    moreover have "usecs (e_first e) \<le> usecs (e_last e) \<longrightarrow> unat (e_rto e * 2) = 2 * unat (e_rto e)"
      using h rto_doubles [of now "e_first e" "e_last e" "e_rto e"] by blast
    ultimately show "queue (fst (tcp_retransmit_timer ev clk pcbs) ! i) ! k = e\<lparr>e_last := now, e_rto := e_rto e * 2\<rparr>
           \<and> (i, Segment (e_seq e) (rcv_nxt p) (e_flg e) (rcv_wnd p) (e_data e) (local p) (foreign p))
               \<in> set (snd (tcp_retransmit_timer ev clk pcbs))
           \<and> (usecs (e_first e) \<le> usecs (e_last e) \<longrightarrow> unat (e_rto e * 2) = 2 * unat (e_rto e))"
      using entry by simp
  qed
  have C: "usecs now - usecs (e_first e) < 12000000
           \<and> usecs now \<le> usecs (e_last e) + int (unat (e_rto e)) \<longrightarrow>
           queue (fst (tcp_retransmit_timer ev clk pcbs) ! i) ! k = e"
  proof
    assume h: "usecs now - usecs (e_first e) < 12000000
           \<and> usecs now \<le> usecs (e_last e) + int (unat (e_rto e))"
    then have nd: "\<not> tv_sec (timersub now (e_first e)) \<ge> TCP_RETRANSMIT_DEADLINE" using d by simp
    have "fst (snd (tcp_retransmit_queue_emit ev now p e)) = e"
      using h nd r by (simp add: tcp_retransmit_queue_emit_def Let_def)
    then show "queue (fst (tcp_retransmit_timer ev clk pcbs) ! i) ! k = e"
      using entry by simp
  qed
  show ?thesis
    using A B C unfolding Let_def p_def [symmetric] e_def [symmetric] now_def [symmetric]
    by blast
qed

lemmas ex_tcp_defs = ex_env_def ex_entry_def ex_pcb_syn_def ex_now_eq_def ex_now_after_def
  ex_now_dead_def ex_t0_def ex_local_def ex_foreign_def tcp_pcb_zero_def

text \<open>C3 as stated fails at the boundary: an entry whose last-send time plus timeout
  equals \<open>now\<close> is not resent; the tick changes nothing and sends nothing. And at the
  deadline the slot is not given back: the tick only sets the state to CLOSED and
  broadcasts, the PCB keeps its endpoints and its queue.\<close>

theorem tcp_retransmit_timer_equal_counterexample:
  "usecs ex_now_eq = usecs (e_last ex_entry) + int (unat (e_rto ex_entry))
   \<and> usecs ex_now_eq - usecs (e_first ex_entry) < 12000000
   \<and> state ex_pcb_syn \<noteq> TCP_PCB_STATE_FREE \<and> queue ex_pcb_syn = [ex_entry]
   \<and> tcp_retransmit_timer ex_env (\<lambda>i k. ex_now_eq) [ex_pcb_syn] = ([ex_pcb_syn], [])
   \<and> usecs ex_now_dead - usecs (e_first ex_entry) = 12000000
   \<and> tcp_retransmit_timer ex_env (\<lambda>i k. ex_now_dead) [ex_pcb_syn]
       = ([ex_pcb_syn\<lparr>state := TCP_PCB_STATE_CLOSED\<rparr>], [(0, Broadcast)])
   \<and> ex_pcb_syn\<lparr>state := TCP_PCB_STATE_CLOSED\<rparr> \<noteq> tcp_pcb_zero"
proof -
  have "state (ex_pcb_syn\<lparr>state := TCP_PCB_STATE_CLOSED\<rparr>) \<noteq> state tcp_pcb_zero"
    by (simp add: tcp_pcb_zero_def)
  then have "ex_pcb_syn\<lparr>state := TCP_PCB_STATE_CLOSED\<rparr> \<noteq> tcp_pcb_zero" by metis
  then show ?thesis
    by (simp add: ex_tcp_defs usecs_def tcp_retransmit_timer_def tcp_retransmit_queue_emit_all_def
      tcp_retransmit_queue_emit_def timersub_def timeval_add_usec_def timercmp_gt_def
      TCP_RETRANSMIT_DEADLINE_def sched_wakeup_def Let_def)
qed


theorem tcp_retransmit_timer_entry_witness:
  "queue (fst (tcp_retransmit_timer ex_env (\<lambda>i k. ex_now_after) [ex_pcb_syn]) ! 0) ! 0
     = ex_entry\<lparr>e_last := ex_now_after, e_rto := 400000\<rparr>
   \<and> (0, Segment 1000 0 0x02 16 [] ex_local ex_foreign)
       \<in> set (snd (tcp_retransmit_timer ex_env (\<lambda>i k. ex_now_after) [ex_pcb_syn]))
   \<and> state (fst (tcp_retransmit_timer ex_env (\<lambda>i k. ex_now_dead) [ex_pcb_syn]) ! 0)
       = TCP_PCB_STATE_CLOSED
   \<and> (0, Broadcast) \<in> set (snd (tcp_retransmit_timer ex_env (\<lambda>i k. ex_now_dead) [ex_pcb_syn]))"
proof -
  have h: "0 < length [ex_pcb_syn]" "state ([ex_pcb_syn] ! 0) \<noteq> TCP_PCB_STATE_FREE"
    "0 < length (queue ([ex_pcb_syn] ! 0))"
    "normalized (e_first (queue ([ex_pcb_syn] ! 0) ! 0))"
    "normalized (e_last (queue ([ex_pcb_syn] ! 0) ! 0))"
    by (simp_all add: ex_tcp_defs normalized_def)
  have n: "normalized ex_now_after" "normalized ex_now_dead"
    by (simp_all add: ex_tcp_defs normalized_def)
  have q: "[ex_pcb_syn] ! 0 = ex_pcb_syn" "queue ex_pcb_syn ! 0 = ex_entry"
    "rcv_nxt ex_pcb_syn = 0" "rcv_wnd ex_pcb_syn = 16" "local ex_pcb_syn = ex_local"
    "foreign ex_pcb_syn = ex_foreign"
    by (simp_all add: ex_pcb_syn_def tcp_pcb_zero_def)
  have u: "usecs ex_now_after - usecs (e_first ex_entry) < 12000000"
    "usecs (e_last ex_entry) + int (unat (e_rto ex_entry)) < usecs ex_now_after"
    "12000000 \<le> usecs ex_now_dead - usecs (e_first ex_entry)"
    "e_seq ex_entry = 1000" "e_flg ex_entry = 0x02" "e_data ex_entry = []"
    "e_rto ex_entry * 2 = 400000"
    by (simp_all add: ex_tcp_defs usecs_def)
  from tcp_retransmit_timer_entry [of 0 "[ex_pcb_syn]" 0 "\<lambda>i k. ex_now_after" ex_env,
      OF h(1) h(2) h(3) n(1) h(4) h(5)]
  have a: "queue (fst (tcp_retransmit_timer ex_env (\<lambda>i k. ex_now_after) [ex_pcb_syn]) ! 0) ! 0
       = ex_entry\<lparr>e_last := ex_now_after, e_rto := 400000\<rparr>
     \<and> (0, Segment 1000 0 0x02 16 [] ex_local ex_foreign)
       \<in> set (snd (tcp_retransmit_timer ex_env (\<lambda>i k. ex_now_after) [ex_pcb_syn]))"
    using u by (simp add: Let_def q)
  from tcp_retransmit_timer_entry [of 0 "[ex_pcb_syn]" 0 "\<lambda>i k. ex_now_dead" ex_env,
      OF h(1) h(2) h(3) n(2) h(4) h(5)]
  have b: "state (fst (tcp_retransmit_timer ex_env (\<lambda>i k. ex_now_dead) [ex_pcb_syn]) ! 0)
       = TCP_PCB_STATE_CLOSED
     \<and> (0, Broadcast) \<in> set (snd (tcp_retransmit_timer ex_env (\<lambda>i k. ex_now_dead) [ex_pcb_syn]))"
    using u by (simp add: Let_def q)
  from a b show ?thesis by simp
qed


section \<open>Segment arrival\<close>

lemmas flag_defs = TCP_FLG_ISSET_def TCP_FLG_FIN_def TCP_FLG_SYN_def TCP_FLG_RST_def
  TCP_FLG_PSH_def TCP_FLG_ACK_def TCP_FLG_URG_def

lemmas arrives_defs = tcp_segment_arrives_def arrives_pcb_def arrives_otherwise_def
  arrives_syn_sent_def arrives_ack_def ack_update_def arrives_text_def arrives_fin_def
  seq_acceptable_def arrives_rst_def arrives_syn_def tcp_pcb_release_def sched_wakeup_def
  sched_ctx_destroy_def pthread_cond_destroy_def EBUSY_def tcp_retransmit_queue_cleanup_def tcp_output_def tcp_output_segment_def
  tcp_pcb_select_def IP_ADDR_ANY_def BUF_SIZE_def

text \<open>General facts about the ACK, RST and segment-text branches.\<close>

lemma cleanup_loop_dropWhile: "cleanup_loop una q = dropWhile (\<lambda>e. e_seq e < una) q"
  by (induction q) (auto simp: not_le)

lemma cleanup_loop_sorted:
  "sorted_wrt (\<lambda>a b. e_seq a \<le> e_seq b) q \<Longrightarrow>
   cleanup_loop una q = filter (\<lambda>e. una \<le> e_seq e) q"
proof (induction q)
  case Nil
  show ?case by simp
next
  case (Cons e q)
  show ?case
  proof (cases "una \<le> e_seq e")
    case True
    with Cons.prems have "\<forall>x\<in>set q. una \<le> e_seq x" by auto
    then have "filter (\<lambda>e. una \<le> e_seq e) q = q" by (simp add: filter_id_conv)
    with True show ?thesis by simp
  next
    case False
    with Cons show ?thesis by simp
  qed
qed

lemma ack_update_new_ack:
  assumes "snd_una pcb < seg_ack seg" "seg_ack seg \<le> snd_nxt pcb"
  shows "\<exists>p'. ack_update ev seg pcb = Inr (p', [])
     \<and> snd_una p' = seg_ack seg
     \<and> queue p' = cleanup_loop (seg_ack seg) (queue pcb)
     \<and> snd_wl1 p' = snd_wl1 pcb
     \<and> (snd_wl1 pcb < seg_seq seg \<or> (snd_wl1 pcb = seg_seq seg \<and> snd_wl2 pcb \<le> seg_ack seg)
          \<longrightarrow> snd_wnd p' = seg_wnd seg \<and> snd_wl2 p' = seg_ack seg)"
  using assms by (auto simp: ack_update_def tcp_retransmit_queue_cleanup_def Let_def)

lemma tcp_pcb_release_zeroes: "tcp_pcb_release pcb = (tcp_pcb_zero, [])"
  by (simp add: tcp_pcb_release_def sched_ctx_destroy_def pthread_cond_destroy_def EBUSY_def)

lemma arrives_syn_sent_rst_no_ack:
  assumes "TCP_FLG_ISSET flags TCP_FLG_RST" "\<not> TCP_FLG_ISSET flags TCP_FLG_ACK"
  shows "arrives_syn_sent ev seg flags l f pcb = (tcp_pcb_zero, [Broadcast])"
  using assms
  by (simp add: arrives_syn_sent_def tcp_pcb_release_zeroes sched_wakeup_def Let_def)

lemma arrives_text_overrun:
  "state pcb = TCP_PCB_STATE_ESTABLISHED \<Longrightarrow> unat (rcv_wnd pcb) < length data \<Longrightarrow>
   arrives_text ev seg data pcb = Inl BufferOverrun"
  by (auto simp: arrives_text_def)

lemma arrives_text_in_bounds:
  assumes "state pcb = TCP_PCB_STATE_ESTABLISHED" "0 < length data"
    "length data \<le> unat (rcv_wnd pcb)" "unat (rcv_wnd pcb) \<le> BUF_SIZE"
    "length (buf pcb) = BUF_SIZE"
  shows "\<exists>p' evs. arrives_text ev seg data pcb = Inr (p', evs)
     \<and> length (buf p') = BUF_SIZE
     \<and> unat (rcv_wnd p') = unat (rcv_wnd pcb) - length data"
proof -
  have "length data < 2 ^ 16" using assms(3,4) by (simp add: BUF_SIZE_def)
  then have u: "unat (of_nat (length data) :: uint16_t) = length data"
    by (simp add: unat_of_nat)
  have "(of_nat (length data) :: uint16_t) \<le> rcv_wnd pcb"
    using assms(3) u by (simp add: word_le_nat_alt)
  then have "unat (rcv_wnd pcb - of_nat (length data)) = unat (rcv_wnd pcb) - length data"
    using u by (simp add: unat_sub)
  then show ?thesis
    using assms
    by (simp add: arrives_text_def tcp_output_def tcp_output_segment_def sched_wakeup_def
        tcp_retransmit_queue_add_def Let_def TCP_FLG_ISSET_def TCP_FLG_ACK_def TCP_FLG_SYN_def
        TCP_FLG_FIN_def BUF_SIZE_def)
qed

text \<open>C1, evaluated where it fails. An ACK for all data in flight arrives on an established
  connection, with \<open>snd.wl1 = 900 < seg.seq = 1000\<close>, so the send window is updated:
  \<open>snd.una\<close> becomes the acknowledgment number, the acknowledged entry leaves the queue,
  \<open>snd.wnd\<close> and \<open>snd.wl2\<close> are set from the segment, but \<open>snd.wl1\<close> keeps its old value 900
  instead of becoming \<open>seg.seq\<close>.\<close>

theorem tcp_segment_arrives_ack_keeps_wl1:
  "tcp_segment_arrives ex_env ex_seg_ack TCP_FLG_ACK [] ex_local ex_foreign [ex_pcb_est]
     = Inr ([ex_pcb_est\<lparr>snd_una := 5003, queue := [], snd_wnd := 32, snd_wl2 := 5003\<rparr>], [])
   \<and> snd_wl1 (ex_pcb_est\<lparr>snd_una := 5003, queue := [], snd_wnd := 32, snd_wl2 := 5003\<rparr>) = 900
   \<and> seg_seq ex_seg_ack = 1000"
  by (simp add: arrives_defs flag_defs ex_pcb_est_def ex_seg_ack_def ex_tcp_defs Let_def)

text \<open>C4, evaluated where it fails. A segment with RST and no ACK arrives for a PCB in
  SYN_SENT, once with no task parked on it and once with its opener parked: the PCB does
  not stay as it was; a wake-up is broadcast and the slot is zeroed, which frees it.\<close>

theorem tcp_segment_arrives_syn_sent_rst_releases:
  "\<not> TCP_FLG_ISSET TCP_FLG_RST TCP_FLG_ACK
   \<and> state ex_pcb_syn = TCP_PCB_STATE_SYN_SENT \<and> wc (ctx ex_pcb_syn) = 0
   \<and> tcp_segment_arrives ex_env ex_seg_rst TCP_FLG_RST [] ex_local ex_foreign [ex_pcb_syn]
     = Inr ([tcp_pcb_zero], [Broadcast])
   \<and> state ex_pcb_syn_parked = TCP_PCB_STATE_SYN_SENT \<and> wc (ctx ex_pcb_syn_parked) = 1
   \<and> tcp_segment_arrives ex_env ex_seg_rst TCP_FLG_RST [] ex_local ex_foreign [ex_pcb_syn_parked]
     = Inr ([tcp_pcb_zero], [Broadcast])"
  by (simp add: arrives_defs flag_defs ex_pcb_syn_parked_def ex_seg_rst_def ex_tcp_defs Let_def)

text \<open>C10, evaluated where it fails. A segment that starts at \<open>rcv.nxt\<close> passes the
  sequence check whatever its length; with 17 bytes of payload and \<open>rcv.wnd = 16\<close> the copy
  into the 16-byte buffer runs past its end.\<close>

theorem tcp_segment_arrives_text_overruns:
  "seq_acceptable ex_seg_data17 ex_pcb_est
   \<and> length ex_payload17 = 17 \<and> unat (rcv_wnd ex_pcb_est) = 16
   \<and> tcp_segment_arrives ex_env ex_seg_data17 (TCP_FLG_ACK OR TCP_FLG_PSH) ex_payload17
       ex_local ex_foreign [ex_pcb_est] = Inl BufferOverrun"
  by (simp add: arrives_defs flag_defs ex_pcb_est_def ex_seg_data17_def ex_payload17_def ex_tcp_defs Let_def)


section \<open>Checksum round trip\<close>

lemma fold16_lt: "fold16 s < 65536"
  by (induction s rule: fold16.induct) (subst fold16.simps, simp)

lemma fold16_le: "fold16 s \<le> s"
proof (induction s rule: fold16.induct)
  case (1 s)
  show ?case
  proof (cases "s < 65536")
    case True
    then show ?thesis by (subst fold16.simps) simp
  next
    case False
    have "s = 65536 * (s div 65536) + s mod 65536" by simp
    then have "s mod 65536 + s div 65536 \<le> s" by linarith
    with 1 [OF False] False show ?thesis by (subst fold16.simps) simp
  qed
qed

lemma fold16_mod: "fold16 s mod 65535 = s mod 65535"
proof (induction s rule: fold16.induct)
  case (1 s)
  show ?case
  proof (cases "s < 65536")
    case True
    then show ?thesis by (subst fold16.simps) simp
  next
    case False
    have "s = 65536 * (s div 65536) + s mod 65536" by simp
    then have "s = 65535 * (s div 65536) + (s mod 65536 + s div 65536)" by linarith
    then have "s mod 65535 = (65535 * (s div 65536) + (s mod 65536 + s div 65536)) mod 65535"
      by simp
    also have "\<dots> = (s mod 65536 + s div 65536) mod 65535"
      by (rule mod_mult_self4)
    finally have "s mod 65535 = (s mod 65536 + s div 65536) mod 65535" .
    with 1 [OF False] False show ?thesis by (subst fold16.simps) simp
  qed
qed

lemma fold16_pos: "0 < s \<Longrightarrow> 0 < fold16 s"
proof (induction s rule: fold16.induct)
  case (1 s)
  show ?case
  proof (cases "s < 65536")
    case True
    then show ?thesis using "1.prems" by (subst fold16.simps) simp
  next
    case False
    then have "0 < s div 65536" by (simp add: div_greater_zero_iff)
    then have "0 < s mod 65536 + s div 65536" by simp
    with 1(1) [OF False] False show ?thesis by (subst fold16.simps) simp
  qed
qed

lemma fold16_complement: "fold16 (x + (65535 - fold16 x)) = 65535"
proof -
  define y where "y = x + (65535 - fold16 x)"
  have lt: "fold16 x < 65536" by (rule fold16_lt)
  have le: "fold16 x \<le> x" by (rule fold16_le)
  have "y = (x - fold16 x) + 65535" using lt le by (simp add: y_def)
  moreover have "(x - fold16 x) mod 65535 = 0"
  proof -
    have "65535 dvd x - fold16 x"
      using mod_eq_dvd_iff_nat [OF le, of 65535] fold16_mod [of x] by simp
    then show ?thesis by (simp add: mod_eq_0_iff_dvd)
  qed
  ultimately have "y mod 65535 = 0" by simp
  then have "fold16 y mod 65535 = 0" by (simp add: fold16_mod)
  moreover have "0 < y" using lt le unfolding y_def by linarith
  then have "0 < fold16 y" by (rule fold16_pos)
  moreover have "fold16 y < 65536" by (rule fold16_lt)
  ultimately have "fold16 y = 65535"
  proof -
    assume m: "fold16 y mod 65535 = 0" and p: "0 < fold16 y" and l: "fold16 y < 65536"
    from m have "65535 dvd fold16 y" by (simp add: mod_eq_0_iff_dvd)
    then obtain k where k: "fold16 y = 65535 * k" by (auto simp: dvd_def)
    with p l have "k = 1" by linarith
    with k show ?thesis by simp
  qed
  then show ?thesis by (simp add: y_def)
qed

lemma words16_append_even:
  "even (length a) \<Longrightarrow> words16 (a @ b) = words16 a @ words16 b"
  by (induction a rule: words16.induct) simp_all

lemma unat_drop8: "unat (drop_bit 8 (c :: 16 word)) = unat c div 256"
  by (simp add: drop_bit_eq_div unat_div)

lemma unat_ucast8: "unat (ucast (c :: 16 word) :: 8 word) = unat c mod 256"
  by (simp add: unsigned_ucast_eq take_bit_eq_mod)

lemma unat_hi8: "unat (ucast (drop_bit 8 (c :: 16 word)) :: 8 word) = unat c div 256"
proof -
  have "unat c < 65536" using unsigned_less [of c, where ?'a = nat] by simp
  then have "unat c div 256 < 256" by simp
  then have "(unat c div 256) mod 256 = unat c div 256" by (rule mod_less)
  then show ?thesis
    by (simp only: unat_ucast8 unat_drop8)
qed

lemma words16_mem16: "words16 (mem16 c) = [unat c]"
proof -
  have "words16 (mem16 c)
        = [unat (ucast c :: 8 word) + 256 * unat (ucast (drop_bit 8 c) :: 8 word)]"
    by (simp only: mem16_def words16.simps)
  also have "\<dots> = [unat (ucast c :: 8 word) + 256 * (unat c div 256)]"
    by (simp only: unat_hi8)
  also have "\<dots> = [unat c mod 256 + 256 * (unat c div 256)]"
    by (simp only: unat_ucast8)
  also have "\<dots> = [unat c]"
    by simp
  finally show ?thesis .
qed

lemma unat_not_of_nat16: "s < 65536 \<Longrightarrow> unat (NOT (of_nat s :: uint16_t)) = 65535 - s"
proof -
  assume a: "s < 65536"
  have "NOT (of_nat s :: uint16_t) = (- 1) - of_nat s"
    by (simp add: not_eq_complement minus_diff_commute)
  then have "unat (NOT (of_nat s :: uint16_t)) = unat ((- 1 :: uint16_t) - of_nat s)"
    by simp
  also have "\<dots> = unat (- 1 :: uint16_t) - unat (of_nat s :: uint16_t)"
    by (rule unat_sub) simp
  also have "\<dots> = 65535 - s"
    using a by (simp add: unat_of_nat unsigned_minus_1_eq_mask mask_eq_exp_minus_1)
  finally show ?thesis .
qed

lemma words16_field:
  "even (length p) \<Longrightarrow>
   sum_list (words16 (p @ mem16 c @ rest)) = sum_list (words16 p) + unat c + sum_list (words16 rest)"
proof -
  assume e: "even (length p)"
  have "even (length (mem16 c))" by (simp add: mem16_def)
  then have "words16 (mem16 c @ rest) = words16 (mem16 c) @ words16 rest"
    by (rule words16_append_even)
  then show ?thesis
    by (simp add: words16_append_even [OF e] words16_mem16)
qed

lemma tcp_hdr_mem_split:
  "tcp_hdr_mem l f sq ak flg wnd c @ data = hdr_prefix l f sq ak flg wnd @ mem16 c @ (mem16 0 @ data)"
  by (simp add: tcp_hdr_mem_def hdr_prefix_def)

lemma length_hdr_prefix: "length (hdr_prefix l f sq ak flg wnd) = 16"
  by (simp add: hdr_prefix_def mem16_def hton32_mem_def hton16_mem_def)

lemma length_tcp_hdr_mem: "length (tcp_hdr_mem l f sq ak flg wnd c) = 20"
  by (simp add: tcp_hdr_mem_def mem16_def hton32_mem_def hton16_mem_def)

lemma sum_tcp_hdr_mem:
  "sum_list (words16 (tcp_hdr_mem l f sq ak flg wnd c @ data))
   = sum_list (words16 (tcp_hdr_mem l f sq ak flg wnd 0 @ data)) + unat c"
proof -
  have e: "even (length (hdr_prefix l f sq ak flg wnd))" by (simp add: length_hdr_prefix)
  show ?thesis
    by (simp only: tcp_hdr_mem_split words16_field [OF e]) simp
qed

lemma cksum16_verifies:
  assumes "count = length (tcp_hdr_mem l f sq ak flg wnd 0 @ data)"
  shows "cksum16 (tcp_hdr_mem l f sq ak flg wnd
                    (cksum16 (tcp_hdr_mem l f sq ak flg wnd 0 @ data) count init) @ data)
           count init = 0"
proof -
  define w where "w = sum_list (words16 (tcp_hdr_mem l f sq ak flg wnd 0 @ data))"
  define c where "c = cksum16 (tcp_hdr_mem l f sq ak flg wnd 0 @ data) count init"
  have c: "c = NOT (of_nat (fold16 (init + w)))"
    using assms by (simp add: c_def cksum16_def w_def)
  have uc: "unat c = 65535 - fold16 (init + w)"
    unfolding c by (rule unat_not_of_nat16) (rule fold16_lt)
  have len: "count = length (tcp_hdr_mem l f sq ak flg wnd c @ data)"
    using assms by (simp add: length_tcp_hdr_mem)
  have "cksum16 (tcp_hdr_mem l f sq ak flg wnd c @ data) count init
        = NOT (of_nat (fold16 (init + (w + unat c))))"
    unfolding cksum16_def len
    by (simp only: take_all order_refl sum_tcp_hdr_mem [of l f sq ak flg wnd c data] w_def)
  also have "init + (w + unat c) = (init + w) + (65535 - fold16 (init + w))"
    by (simp add: uc)
  also have "fold16 \<dots> = 65535" by (rule fold16_complement)
  also have "NOT (of_nat 65535 :: uint16_t) = 0" by simp
  finally show ?thesis unfolding c_def .
qed

text \<open>C9. For every sequence number, acknowledgment number, window and payload that fits
  the output buffer behind the 20-byte header, \<^verbatim>\<open>tcp_output_segment\<close> with flags ACK builds
  the segment, and the checksum test of \<^verbatim>\<open>tcp_input\<close> over those bytes, received from the
  sender's address for the destination's, yields 0, a match.\<close>

theorem tcp_checksum_round_trip:
  assumes "20 + length data \<le> IP_PAYLOAD_SIZE_MAX"
  shows "\<exists>bytes. tcp_output_segment_bytes sq ak TCP_FLG_ACK wnd data l f = Inr bytes
           \<and> tcp_input_verify bytes (addr l) (addr f) = 0"
proof -
  define psum where
    "psum = unat (NOT (cksum16 (pseudo_hdr_mem (addr l) (addr f) (of_nat (20 + length data))) 12 0))"
  define bytes where
    "bytes = tcp_hdr_mem l f sq ak TCP_FLG_ACK wnd
               (cksum16 (tcp_hdr_mem l f sq ak TCP_FLG_ACK wnd 0 @ data) (20 + length data) psum)
             @ data"
  have out: "tcp_output_segment_bytes sq ak TCP_FLG_ACK wnd data l f = Inr bytes"
    using assms by (simp add: tcp_output_segment_bytes_def Let_def bytes_def psum_def)
  have len: "length bytes = 20 + length data"
    by (simp add: bytes_def length_tcp_hdr_mem)
  have cnt: "20 + length data = length (tcp_hdr_mem l f sq ak TCP_FLG_ACK wnd 0 @ data)"
    by (simp add: length_tcp_hdr_mem)
  have "tcp_input_verify bytes (addr l) (addr f) = cksum16 bytes (20 + length data) psum"
    by (simp add: tcp_input_verify_def Let_def len psum_def)
  also have "\<dots> = 0"
    unfolding bytes_def by (rule cksum16_verifies [OF cnt])
  finally show ?thesis using out by blast
qed


theorem tcp_checksum_round_trip_witness:
  "20 + length [0x68, 0x69, 0x0a :: uint8_t] \<le> IP_PAYLOAD_SIZE_MAX
   \<and> (\<exists>bytes. tcp_output_segment_bytes 1000 2000 TCP_FLG_ACK 16 [0x68, 0x69, 0x0a] ex_local ex_foreign
                  = Inr bytes
           \<and> tcp_input_verify bytes (addr ex_local) (addr ex_foreign) = 0)"
proof -
  have h: "20 + length [0x68, 0x69, 0x0a :: uint8_t] \<le> IP_PAYLOAD_SIZE_MAX"
    by (simp add: IP_PAYLOAD_SIZE_MAX_def)
  from tcp_checksum_round_trip [OF h] h show ?thesis by blast
qed

section \<open>Receiving\<close>

lemma receive_remain_le:
  assumes "unat (rcv_wnd p) \<le> BUF_SIZE"
  shows "receive_remain p = BUF_SIZE - unat (rcv_wnd p)"
proof -
  have "BUF_SIZE + 2 ^ 64 - unat (rcv_wnd p) = (BUF_SIZE - unat (rcv_wnd p)) + 1 * 2 ^ 64"
    using assms by simp
  moreover have "BUF_SIZE - unat (rcv_wnd p) < 2 ^ 64"
    by (simp add: BUF_SIZE_def)
  ultimately show ?thesis
    unfolding receive_remain_def by (simp only: mod_mult_self1 mod_less)
qed

lemma receive_copy_ok:
  assumes "unat (rcv_wnd p) \<le> BUF_SIZE"
  shows "receive_copy p sz =
     Inr (Received (int (min sz (BUF_SIZE - unat (rcv_wnd p))))
            (take (min sz (BUF_SIZE - unat (rcv_wnd p))) (buf p)),
          p\<lparr>buf := take (BUF_SIZE - unat (rcv_wnd p) - min sz (BUF_SIZE - unat (rcv_wnd p)))
                      (drop (min sz (BUF_SIZE - unat (rcv_wnd p))) (buf p))
                    @ drop (BUF_SIZE - unat (rcv_wnd p) - min sz (BUF_SIZE - unat (rcv_wnd p))) (buf p),
             rcv_wnd := rcv_wnd p + of_nat (min sz (BUF_SIZE - unat (rcv_wnd p)))\<rparr>)"
  by (simp add: receive_copy_def receive_remain_le [OF assms] Let_def)

lemma rcv_wnd_grows:
  assumes "unat (w :: uint16_t) \<le> BUF_SIZE" "n \<le> BUF_SIZE - unat w"
  shows "unat (w + of_nat n) = unat w + n"
proof -
  have "unat w + n \<le> 16" using assms by (simp add: BUF_SIZE_def)
  then have "unat w + n < 2 ^ 16" by simp
  then show ?thesis
    by (simp add: unat_word_ariths unat_of_nat)
qed

text \<open>C6. For a valid handle whose PCB has a well-formed receive buffer (16 bytes, of which
  \<open>16 - rcv.wnd\<close> are waiting): in ESTABLISHED with nothing waiting \<^verbatim>\<open>tcp_receive\<close> parks,
  and once woken without interruption it makes the same test again; in ESTABLISHED with
  bytes waiting it returns \<open>n = min size (16 - rcv.wnd)\<close>, hands out the first \<open>n\<close> bytes of
  the buffer, moves the bytes that are left to the front and grows \<open>rcv.wnd\<close> by \<open>n\<close>,
  changing nothing else; in CLOSE_WAIT with nothing waiting it returns 0 and changes
  nothing.\<close>

theorem tcp_receive_behaviour:
  assumes "tcp_pcb_get pcbs i = Some k"
    and "unat (rcv_wnd (pcbs ! k)) \<le> BUF_SIZE" and "length (buf (pcbs ! k)) = BUF_SIZE"
  shows
   "(let p = pcbs ! k; remain = BUF_SIZE - unat (rcv_wnd p); n = min sz remain
     in (state p = TCP_PCB_STATE_ESTABLISHED \<and> remain = 0 \<and> interrupted (ctx p) = 0 \<longrightarrow>
           tcp_receive pcbs i sz
             = Inr (Receive_parked, pcbs[k := p\<lparr>ctx := (ctx p)\<lparr>wc := wc (ctx p) + 1\<rparr>\<rparr>]))
      \<and> (\<forall>q ret. interrupted (ctx q) = 0 \<and> ret \<noteq> -1 \<longrightarrow>
           tcp_receive_wake q sz ret
             = tcp_receive_retry (q\<lparr>ctx := (ctx q)\<lparr>wc := wc (ctx q) - 1\<rparr>\<rparr>) sz)
      \<and> (state p = TCP_PCB_STATE_ESTABLISHED \<and> 0 < remain \<longrightarrow>
           (\<exists>p'. tcp_receive pcbs i sz = Inr (Received (int n) (take n (buf p)), pcbs[k := p'])
              \<and> length (buf p') = BUF_SIZE
              \<and> (\<forall>j < remain - n. buf p' ! j = buf p ! (n + j))
              \<and> unat (rcv_wnd p') = unat (rcv_wnd p) + n
              \<and> p' = p\<lparr>buf := buf p', rcv_wnd := rcv_wnd p'\<rparr>))
      \<and> (state p = TCP_PCB_STATE_CLOSE_WAIT \<and> remain = 0 \<longrightarrow>
           tcp_receive pcbs i sz = Inr (Received 0 [], pcbs)))"
proof -
  define p where "p = pcbs ! k"
  define remain where "remain = BUF_SIZE - unat (rcv_wnd p)"
  define n where "n = min sz remain"
  have w: "unat (rcv_wnd p) \<le> BUF_SIZE" and l: "length (buf p) = BUF_SIZE"
    using assms(2,3) by (simp_all add: p_def)
  have rem: "receive_remain p = remain"
    unfolding remain_def by (rule receive_remain_le [OF w])
  have A: "state p = TCP_PCB_STATE_ESTABLISHED \<and> remain = 0 \<and> interrupted (ctx p) = 0 \<longrightarrow>
           tcp_receive pcbs i sz
             = Inr (Receive_parked, pcbs[k := p\<lparr>ctx := (ctx p)\<lparr>wc := wc (ctx p) + 1\<rparr>\<rparr>])"
    using assms(1) rem
    by (simp add: tcp_receive_def tcp_receive_retry_def sched_sleep_enter_def p_def)
  have B: "\<forall>q ret. interrupted (ctx q) = 0 \<and> ret \<noteq> -1 \<longrightarrow>
           tcp_receive_wake q sz ret
             = tcp_receive_retry (q\<lparr>ctx := (ctx q)\<lparr>wc := wc (ctx q) - 1\<rparr>\<rparr>) sz"
    by (simp add: tcp_receive_wake_def sched_sleep_leave_def Let_def)
  have C: "state p = TCP_PCB_STATE_ESTABLISHED \<and> 0 < remain \<longrightarrow>
           (\<exists>p'. tcp_receive pcbs i sz = Inr (Received (int n) (take n (buf p)), pcbs[k := p'])
              \<and> length (buf p') = BUF_SIZE
              \<and> (\<forall>j < remain - n. buf p' ! j = buf p ! (n + j))
              \<and> unat (rcv_wnd p') = unat (rcv_wnd p) + n
              \<and> p' = p\<lparr>buf := buf p', rcv_wnd := rcv_wnd p'\<rparr>)"
  proof
    assume h: "state p = TCP_PCB_STATE_ESTABLISHED \<and> 0 < remain"
    define p' where "p' = p\<lparr>buf := take (remain - n) (drop n (buf p)) @ drop (remain - n) (buf p),
             rcv_wnd := rcv_wnd p + of_nat n\<rparr>"
    have copy: "receive_copy p sz = Inr (Received (int n) (take n (buf p)), p')"
      using receive_copy_ok [OF w, of sz] by (simp add: p'_def n_def remain_def)
    have r: "tcp_receive pcbs i sz = Inr (Received (int n) (take n (buf p)), pcbs[k := p'])"
      using assms(1) h rem copy by (simp add: tcp_receive_def tcp_receive_retry_def p_def)
    have nle: "n \<le> remain" "remain \<le> BUF_SIZE" by (simp_all add: n_def remain_def)
    have len: "length (buf p') = BUF_SIZE"
      using l nle by (simp add: p'_def)
    have nth: "\<forall>j < remain - n. buf p' ! j = buf p ! (n + j)"
      using l nle by (simp add: p'_def nth_append)
    have grow: "unat (rcv_wnd p') = unat (rcv_wnd p) + n"
      using rcv_wnd_grows [OF w, of n] nle by (simp add: p'_def remain_def)
    have "p' = p\<lparr>buf := buf p', rcv_wnd := rcv_wnd p'\<rparr>" by (simp add: p'_def)
    with r len nth grow show "\<exists>p'. tcp_receive pcbs i sz = Inr (Received (int n) (take n (buf p)), pcbs[k := p'])
              \<and> length (buf p') = BUF_SIZE
              \<and> (\<forall>j < remain - n. buf p' ! j = buf p ! (n + j))
              \<and> unat (rcv_wnd p') = unat (rcv_wnd p) + n
              \<and> p' = p\<lparr>buf := buf p', rcv_wnd := rcv_wnd p'\<rparr>"
      by blast
  qed
  have D: "state p = TCP_PCB_STATE_CLOSE_WAIT \<and> remain = 0 \<longrightarrow>
           tcp_receive pcbs i sz = Inr (Received 0 [], pcbs)"
    using assms(1) rem by (simp add: tcp_receive_def tcp_receive_retry_def p_def)
  show ?thesis
    unfolding Let_def p_def [symmetric] remain_def [symmetric] n_def [symmetric]
    using A B C D by blast
qed

theorem tcp_receive_behaviour_witness:
  "tcp_pcb_get [ex_pcb_rx] 0 = Some 0 \<and> unat (rcv_wnd ex_pcb_rx) \<le> BUF_SIZE
   \<and> length (buf ex_pcb_rx) = BUF_SIZE \<and> state ex_pcb_rx = TCP_PCB_STATE_ESTABLISHED
   \<and> (\<exists>p'. tcp_receive [ex_pcb_rx] 0 3 = Inr (Received 3 [104, 101, 108], [p'])
         \<and> buf p' ! 0 = 108 \<and> buf p' ! 1 = 111 \<and> unat (rcv_wnd p') = 14)
   \<and> tcp_receive [ex_pcb_est] 0 3
       = Inr (Receive_parked, [ex_pcb_est\<lparr>ctx := \<lparr>interrupted = 0, wc = 1\<rparr>\<rparr>])
   \<and> tcp_receive [ex_pcb_cw] 0 3 = Inr (Received 0 [], [ex_pcb_cw])"
proof -
  have g: "tcp_pcb_get [ex_pcb_rx] 0 = Some 0" "tcp_pcb_get [ex_pcb_est] 0 = Some 0"
    "tcp_pcb_get [ex_pcb_cw] 0 = Some 0"
    by (simp_all add: tcp_pcb_get_def ex_pcb_rx_def ex_pcb_cw_def ex_pcb_est_def)
  have w: "unat (rcv_wnd ex_pcb_rx) = 11" "unat (rcv_wnd ex_pcb_est) = 16"
    "unat (rcv_wnd ex_pcb_cw) = 16"
    by (simp_all add: ex_pcb_rx_def ex_pcb_cw_def ex_pcb_est_def)
  have l: "length (buf ex_pcb_rx) = BUF_SIZE" "length (buf ex_pcb_est) = BUF_SIZE"
    "length (buf ex_pcb_cw) = BUF_SIZE"
    by (simp_all add: ex_pcb_rx_def ex_pcb_cw_def ex_pcb_est_def tcp_pcb_zero_def BUF_SIZE_def)
  have s: "state ex_pcb_rx = TCP_PCB_STATE_ESTABLISHED" "state ex_pcb_est = TCP_PCB_STATE_ESTABLISHED"
    "state ex_pcb_cw = TCP_PCB_STATE_CLOSE_WAIT"
    by (simp_all add: ex_pcb_rx_def ex_pcb_cw_def ex_pcb_est_def)
  have c: "ctx ex_pcb_est = \<lparr>interrupted = 0, wc = 0\<rparr>"
    by (simp add: ex_pcb_est_def tcp_pcb_zero_def)
  have b: "take 3 (buf ex_pcb_rx) = [104, 101, 108]" "buf ex_pcb_rx ! 3 = 108" "buf ex_pcb_rx ! 4 = 111"
    by (simp_all add: ex_pcb_rx_def)
  have 1: "\<exists>p'. tcp_receive [ex_pcb_rx] 0 3 = Inr (Received 3 [104, 101, 108], [p'])
         \<and> buf p' ! 0 = 108 \<and> buf p' ! 1 = 111 \<and> unat (rcv_wnd p') = 14"
    using tcp_receive_behaviour [of "[ex_pcb_rx]" 0 0 3] g(1) w(1) l(1) s(1) b
    by (auto simp: Let_def BUF_SIZE_def)
  have 2: "tcp_receive [ex_pcb_est] 0 3
       = Inr (Receive_parked, [ex_pcb_est\<lparr>ctx := \<lparr>interrupted = 0, wc = 1\<rparr>\<rparr>])"
    using tcp_receive_behaviour [of "[ex_pcb_est]" 0 0 3] g(2) w(2) l(2) s(2) c
    by (simp add: Let_def BUF_SIZE_def)
  have 3: "tcp_receive [ex_pcb_cw] 0 3 = Inr (Received 0 [], [ex_pcb_cw])"
    using tcp_receive_behaviour [of "[ex_pcb_cw]" 0 0 3] g(3) w(3) l(3) s(3)
    by (simp add: Let_def BUF_SIZE_def)
  show ?thesis using g w l s 1 2 3 by (simp add: BUF_SIZE_def)
qed


section \<open>Sending\<close>














lemma tcp_send_retry_no_route:
  "route_mtu (addr (foreign q)) = None \<Longrightarrow>
   tcp_send_retry route_mtu envs data sent q evs = Some (Sent (-1), q, evs)"
  by (simp add: tcp_send_retry_def)












end
